theory Spec2Isabelle
  imports Main
begin

section \<open>Data model\<close>

text \<open>
  A file is its byte content and its permission bits. Offsets and lengths handed to the
  public operations are the non-negative values of Go's \<open>int64\<close>; the arithmetic of the
  section writer, where a negative or overflowing value is observable, is over \<open>int\<close>
  with the 64-bit wrap-around written out (\<open>int64\<close>).
\<close>

type_synonym byte = nat

record osfile =
  bytes :: "byte list"
  perm :: nat

record fileInfo =
  Size :: nat
  Mode :: nat

definition int64 :: "int \<Rightarrow> int" where
  "int64 x = (x + 2 ^ 63) mod 2 ^ 64 - 2 ^ 63"

text \<open>
  Go error values. \<open>ErrReflinkUnsupported\<close> and \<open>ErrReflinkFailed\<close> are the two
  sentinels of errors.go; \<open>Errno\<close> is a \<open>syscall.Errno\<close>; \<open>PathError\<close> is the wrapper
  the \<open>os\<close> package puts around a failing system call; \<open>StatSource\<close> is
  \<open>fmt.Errorf("failed to stat source: %w", err)\<close>; the remaining ones are the
  sentinels of package \<open>io\<close> and the two errors of \<open>sectionWriter.Seek\<close>.
\<close>

datatype error =
    ErrReflinkUnsupported
  | ErrReflinkFailed
  | Errno nat
  | ErrClosed
  | ErrNegativeOffset
  | PathError string error
  | StatSource error
  | EOF
  | ErrShortWrite
  | ErrInvalidWrite
  | ErrSeekWhence
  | ErrSeekOffset

definition ENOENT :: nat where "ENOENT = 2"
definition EEXIST :: nat where "EEXIST = 17"
definition EXDEV :: nat where "EXDEV = 18"
definition EINVAL :: nat where "EINVAL = 22"
definition EFBIG :: nat where "EFBIG = 27"
definition ENOTSUP :: nat where "ENOTSUP = 95"

text \<open>\<open>errors.Is\<close>: equality with the target, or with an error further down the
  \<open>Unwrap\<close> chain.\<close>

fun errors_Is :: "error \<Rightarrow> error \<Rightarrow> bool" where
  "errors_Is (PathError opn e) t = (PathError opn e = t \<or> errors_Is e t)"
| "errors_Is (StatSource e) t = (StatSource e = t \<or> errors_Is e t)"
| "errors_Is e t = (e = t)"

section \<open>The host\<close>

text \<open>
  Everything the package calls outside itself (system calls, package \<open>os\<close>) is played by
  a simulated host. The record fixes, for one call of a public operation, what each
  outside call answers: \<open>linux\<close> is the build constraint that selects
  reflink_linux.go or the stub reflink.go; \<open>conn_src\<close>, \<open>conn_dst\<close>, \<open>ctl_dst\<close>,
  \<open>ctl_src\<close> are the failures of \<open>SyscallConn\<close> and \<open>Control\<close>; \<open>ficlone\<close> and
  \<open>ficlonerange\<close> are the errno of the two clone ioctls; \<open>cfr\<close> is the answer of
  \<open>copy_file_range\<close>, an errno or the largest number of bytes the kernel is willing to
  copy in this call; \<open>fsize_limit\<close> is a file-size limit beyond which a write stops
  with \<open>EFBIG\<close>; the remaining fields are the failures of \<open>Stat\<close>, \<open>os.Open\<close> and
  \<open>os.Rename\<close>, the function \<open>filepath.Dir\<close>, and the name \<open>ioutil.TempFile\<close> picks
  in a directory (or its errno).
\<close>

record host =
  linux :: bool
  conn_src :: "nat option"
  conn_dst :: "nat option"
  ctl_dst :: "nat option"
  ctl_src :: "nat option"
  ficlone :: "nat option"
  ficlonerange :: "nat option"
  cfr :: "nat + nat"
  fsize_limit :: "nat option"
  stat_err :: "nat option"
  open_err :: "nat option"
  rename_err :: "nat option"
  path_dir :: "string \<Rightarrow> string"
  temp_create :: "string \<Rightarrow> nat + string"

subsection \<open>Positional writes\<close>

text \<open>\<open>pwrite\<close>: the bytes \<open>p\<close> replace the content from offset \<open>a\<close> on; a gap between
  the old end of the file and \<open>a\<close> reads as zeros; writing nothing changes nothing.\<close>

definition write_at :: "byte list \<Rightarrow> nat \<Rightarrow> byte list \<Rightarrow> byte list" where
  "write_at bs a p =
     (if p = [] then bs
      else take a bs @ replicate (a - length bs) 0 @ p @ drop (a + length p) bs)"

text \<open>How many of \<open>len\<close> bytes written at offset \<open>a\<close> fit under the host's size limit.\<close>

definition writable :: "host \<Rightarrow> nat \<Rightarrow> nat \<Rightarrow> nat" where
  "writable h a len =
     (case fsize_limit h of None \<Rightarrow> len | Some l \<Rightarrow> min len (l - a))"

text \<open>\<open>(*os.File).WriteAt\<close>: a negative offset is refused; otherwise the bytes that
  fit are written. Its loop adds the bytes of a \<open>pwrite\<close> to the count only when that
  \<open>pwrite\<close> returned no error, so a write that is cut short returns the error with the
  count 0, although the bytes that fit have reached the file.\<close>

definition File_WriteAt :: "host \<Rightarrow> byte list \<Rightarrow> int \<Rightarrow> osfile \<Rightarrow> (int \<times> error option) \<times> osfile" where
  "File_WriteAt h p ofs f =
     (if ofs < 0 then ((0, Some (PathError ''writeat'' ErrNegativeOffset)), f)
      else
        let k = writable h (nat ofs) (length p)
        in ((if k < length p then 0 else int (length p),
             if k < length p then Some (PathError ''write'' (Errno EFBIG)) else None),
            f\<lparr>bytes := write_at (bytes f) (nat ofs) (take k p)\<rparr>))"

text \<open>\<open>(*os.File).Write\<close>: a write at the handle's file position, which advances by
  the bytes written; it returns their number, also beside the error of a write that is
  cut short.\<close>

definition File_Write :: "host \<Rightarrow> byte list \<Rightarrow> osfile \<times> nat \<Rightarrow> (int \<times> error option) \<times> (osfile \<times> nat)" where
  "File_Write h p fp =
     (let k = writable h (snd fp) (length p)
      in ((int k, if k < length p then Some (PathError ''write'' (Errno EFBIG)) else None),
          ((fst fp)\<lparr>bytes := write_at (bytes (fst fp)) (snd fp) (take k p)\<rparr>, snd fp + k)))"

definition File_Truncate :: "osfile \<Rightarrow> nat \<Rightarrow> osfile" where
  "File_Truncate f n = f\<lparr>bytes := take n (bytes f) @ replicate (n - length (bytes f)) 0\<rparr>"

definition File_Stat :: "host \<Rightarrow> osfile \<Rightarrow> error + fileInfo" where
  "File_Stat h f =
     (case stat_err h of
        Some e \<Rightarrow> Inl (PathError ''stat'' (Errno e))
      | None \<Rightarrow> Inr \<lparr>Size = length (bytes f), Mode = perm f\<rparr>)"

text \<open>\<open>(*os.File).Chmod\<close>: every method of a closed \<open>*os.File\<close> fails with
  \<open>os.ErrClosed\<close> and has no effect.\<close>

definition File_Chmod :: "bool \<Rightarrow> nat \<Rightarrow> osfile \<Rightarrow> error option \<times> osfile" where
  "File_Chmod closed m f =
     (if closed then (Some (PathError ''chmod'' ErrClosed), f)
      else (None, f\<lparr>perm := m\<rparr>))"

subsection \<open>The kernel primitives\<close>

text \<open>
  The three system calls, as the simulated host answers them; a failing call changes
  nothing. \<open>FICLONERANGE\<close> shares the source range into the destination at the given
  offset, in place, and reads a length of 0 as "up to the end of the source"
  (ioctl_ficlonerange(2)); \<open>FICLONE\<close> is that request with both offsets and the length
  0, so a destination longer than the source keeps its tail. \<open>copy_file_range\<close>
  overwrites the destination range in place, may copy fewer bytes than asked, and
  reports the count.
\<close>

definition clone_range :: "osfile \<Rightarrow> osfile \<Rightarrow> nat \<Rightarrow> nat \<Rightarrow> nat \<Rightarrow> osfile" where
  "clone_range d s dstOffset srcOffset n =
     d\<lparr>bytes := write_at (bytes d) dstOffset
        (if n = 0 then drop srcOffset (bytes s) else take n (drop srcOffset (bytes s)))\<rparr>"

definition IoctlFileClone :: "host \<Rightarrow> osfile \<Rightarrow> osfile \<Rightarrow> error option \<times> osfile" where
  "IoctlFileClone h d s =
     (case ficlone h of
        Some e \<Rightarrow> (Some (Errno e), d)
      | None \<Rightarrow> (None, clone_range d s 0 0 0))"

definition IoctlFileCloneRange :: "host \<Rightarrow> osfile \<Rightarrow> osfile \<Rightarrow> nat \<Rightarrow> nat \<Rightarrow> nat \<Rightarrow> error option \<times> osfile" where
  "IoctlFileCloneRange h d s dstOffset srcOffset n =
     (case ficlonerange h of
        Some e \<Rightarrow> (Some (Errno e), d)
      | None \<Rightarrow> (None, clone_range d s dstOffset srcOffset n))"

definition CopyFileRange :: "host \<Rightarrow> osfile \<Rightarrow> osfile \<Rightarrow> nat \<Rightarrow> nat \<Rightarrow> nat \<Rightarrow> (int \<times> error option) \<times> osfile" where
  "CopyFileRange h d s dstOffset srcOffset n =
     (case cfr h of
        Inl e \<Rightarrow> ((- 1, Some (Errno e)), d)
      | Inr k \<Rightarrow>
          let dat = take (min k n) (drop srcOffset (bytes s))
          in ((int (length dat), None), d\<lparr>bytes := write_at (bytes d) dstOffset dat\<rparr>))"

section \<open>reflink.go and reflink_linux.go: the clone primitive adapter\<close>

text \<open>reflink.go (build constraint \<open>!linux\<close>): the three stubs.\<close>

definition reflinkInternal_other :: "osfile \<Rightarrow> osfile \<Rightarrow> error option \<times> osfile" where
  "reflinkInternal_other d s = (Some ErrReflinkUnsupported, d)"

definition reflinkRangeInternal_other :: "osfile \<Rightarrow> osfile \<Rightarrow> nat \<Rightarrow> nat \<Rightarrow> nat \<Rightarrow> error option \<times> osfile" where
  "reflinkRangeInternal_other dst src dstOffset srcOffset n = (Some ErrReflinkUnsupported, dst)"

definition copyFileRange_other :: "osfile \<Rightarrow> osfile \<Rightarrow> nat \<Rightarrow> nat \<Rightarrow> nat \<Rightarrow> (int \<times> error option) \<times> osfile" where
  "copyFileRange_other dst src dstOffset srcOffset n = ((0, Some ErrReflinkUnsupported), dst)"

text \<open>
  reflink_linux.go. Each function takes the two raw connections, runs the system call
  inside \<open>sd.Control(... ss.Control(...))\<close> and returns, in this order, the error of
  \<open>sd.Control\<close>, the error of \<open>ss.Control\<close>, and the result of the system call, which
  the two clone functions replace by \<open>ErrReflinkFailed\<close> when it is \<open>ENOTSUP\<close>.
\<close>

definition reflinkInternal_linux :: "host \<Rightarrow> osfile \<Rightarrow> osfile \<Rightarrow> error option \<times> osfile" where
  "reflinkInternal_linux h d s =
     (case conn_src h of Some e \<Rightarrow> (Some (Errno e), d) | None \<Rightarrow>
     (case conn_dst h of Some e \<Rightarrow> (Some (Errno e), d) | None \<Rightarrow>
     (case ctl_dst h of Some e \<Rightarrow> (Some (Errno e), d) | None \<Rightarrow>
     (case ctl_src h of Some e \<Rightarrow> (Some (Errno e), d) | None \<Rightarrow>
     (case IoctlFileClone h d s of
        (Some err3, d') \<Rightarrow>
          (if errors_Is err3 (Errno ENOTSUP) then (Some ErrReflinkFailed, d')
           else (Some err3, d'))
      | (None, d') \<Rightarrow> (None, d'))))))"

definition reflinkRangeInternal_linux :: "host \<Rightarrow> osfile \<Rightarrow> osfile \<Rightarrow> nat \<Rightarrow> nat \<Rightarrow> nat \<Rightarrow> error option \<times> osfile" where
  "reflinkRangeInternal_linux h dst src dstOffset srcOffset n =
     (case conn_src h of Some e \<Rightarrow> (Some (Errno e), dst) | None \<Rightarrow>
     (case conn_dst h of Some e \<Rightarrow> (Some (Errno e), dst) | None \<Rightarrow>
     (case ctl_dst h of Some e \<Rightarrow> (Some (Errno e), dst) | None \<Rightarrow>
     (case ctl_src h of Some e \<Rightarrow> (Some (Errno e), dst) | None \<Rightarrow>
     (case IoctlFileCloneRange h dst src dstOffset srcOffset n of
        (Some err3, d') \<Rightarrow>
          (if errors_Is err3 (Errno ENOTSUP) then (Some ErrReflinkFailed, d')
           else (Some err3, d'))
      | (None, d') \<Rightarrow> (None, d'))))))"

definition copyFileRange_linux :: "host \<Rightarrow> osfile \<Rightarrow> osfile \<Rightarrow> nat \<Rightarrow> nat \<Rightarrow> nat \<Rightarrow> (int \<times> error option) \<times> osfile" where
  "copyFileRange_linux h dst src dstOffset srcOffset n =
     (case conn_src h of Some e \<Rightarrow> ((0, Some (Errno e)), dst) | None \<Rightarrow>
     (case conn_dst h of Some e \<Rightarrow> ((0, Some (Errno e)), dst) | None \<Rightarrow>
     (case ctl_dst h of Some e \<Rightarrow> ((0, Some (Errno e)), dst) | None \<Rightarrow>
     (case ctl_src h of Some e \<Rightarrow> ((0, Some (Errno e)), dst) | None \<Rightarrow>
        CopyFileRange h dst src dstOffset srcOffset n))))"

text \<open>The build constraint picks one of the two files.\<close>

definition reflinkInternal :: "host \<Rightarrow> osfile \<Rightarrow> osfile \<Rightarrow> error option \<times> osfile" where
  "reflinkInternal h d s =
     (if linux h then reflinkInternal_linux h d s else reflinkInternal_other d s)"

definition reflinkRangeInternal :: "host \<Rightarrow> osfile \<Rightarrow> osfile \<Rightarrow> nat \<Rightarrow> nat \<Rightarrow> nat \<Rightarrow> error option \<times> osfile" where
  "reflinkRangeInternal h dst src dstOffset srcOffset n =
     (if linux h then reflinkRangeInternal_linux h dst src dstOffset srcOffset n
      else reflinkRangeInternal_other dst src dstOffset srcOffset n)"

definition copyFileRange :: "host \<Rightarrow> osfile \<Rightarrow> osfile \<Rightarrow> nat \<Rightarrow> nat \<Rightarrow> nat \<Rightarrow> (int \<times> error option) \<times> osfile" where
  "copyFileRange h dst src dstOffset srcOffset n =
     (if linux h then copyFileRange_linux h dst src dstOffset srcOffset n
      else copyFileRange_other dst src dstOffset srcOffset n)"

section \<open>The ranged I/O adapter: sectionWriter\<close>

text \<open>
  The field \<open>w\<close> of the Go struct is an \<open>io.WriterAt\<close>; here it is the function that
  writes and the state it writes to, passed beside the two integer fields.
\<close>

record sectionWriter =
  base :: int
  off :: int

definition SeekStart :: int where "SeekStart = 0"
definition SeekCurrent :: int where "SeekCurrent = 1"
definition SeekEnd :: int where "SeekEnd = 2"

definition Write :: "(byte list \<Rightarrow> int \<Rightarrow> 'f \<Rightarrow> (int \<times> error option) \<times> 'f) \<Rightarrow> byte list \<Rightarrow>
    sectionWriter \<times> 'f \<Rightarrow> (int \<times> error option) \<times> (sectionWriter \<times> 'f)" where
  "Write w p sf =
     (let s = fst sf;
          ((n, err), f') = w p (int64 (base s + off s)) (snd sf)
      in ((n, err), (s\<lparr>off := int64 (off s + n)\<rparr>, f')))"

definition Seek :: "sectionWriter \<Rightarrow> int \<Rightarrow> int \<Rightarrow> (int \<times> error option) \<times> sectionWriter" where
  "Seek s offset whence =
     (if whence = SeekStart \<or> whence = SeekCurrent then
        let offset' = (if whence = SeekCurrent then int64 (offset + off s) else offset)
        in if offset' < 0 then ((off s, Some ErrSeekOffset), s)
           else ((offset', None), s\<lparr>off := offset'\<rparr>)
      else ((off s, Some ErrSeekWhence), s))"

section \<open>Package io: Copy and CopyN\<close>

text \<open>
  The generic loop of \<open>io.Copy\<close>: read up to a buffer of bytes, write them, stop at the
  first write error, at a short write, or when the reader is exhausted. \<open>src\<close> is what
  the reader still has to deliver; the buffer is never empty. (Between two files
  \<open>io.Copy\<close> may take the shortcut of \<open>ReadFrom\<close>; it moves the same bytes, from
  the reader's position to its end, to the writer's position.) Reads do not fail here;
  the copy fails when a write does.
\<close>

function copyBuffer :: "(byte list \<Rightarrow> 'w \<Rightarrow> (int \<times> error option) \<times> 'w) \<Rightarrow> nat \<Rightarrow> byte list \<Rightarrow>
    'w \<Rightarrow> int \<Rightarrow> (int \<times> error option) \<times> 'w" where
  "copyBuffer wr sz src st written =
     (if src = [] then ((written, None), st)
      else
        let buf = take (max 1 sz) src;
            res = wr buf st;
            nw = fst (fst res);
            ew = snd (fst res);
            bad = (nw < 0 \<or> int (length buf) < nw);
            nw' = (if bad then 0 else nw);
            ew' = (if bad \<and> ew = None then Some ErrInvalidWrite else ew)
        in if ew' \<noteq> None then ((written + nw', ew'), snd res)
           else if int (length buf) \<noteq> nw' then ((written + nw', Some ErrShortWrite), snd res)
           else copyBuffer wr sz (drop (length buf) src) (snd res) (written + nw'))"
  by pat_completeness auto
termination
  by (relation "measure (\<lambda>(wr, sz, src, st, written). length src)") auto

declare copyBuffer.simps [simp del]

definition io_Copy :: "(byte list \<Rightarrow> 'w \<Rightarrow> (int \<times> error option) \<times> 'w) \<Rightarrow> byte list \<Rightarrow> 'w \<Rightarrow>
    (int \<times> error option) \<times> 'w" where
  "io_Copy wr src st = copyBuffer wr 32768 src st 0"

text \<open>\<open>io.CopyN(dst, src, n)\<close> copies from \<open>LimitReader(src, n)\<close>, with a buffer no
  larger than \<open>n\<close>, and turns a short copy without error into \<open>EOF\<close>.\<close>

definition io_CopyN :: "(byte list \<Rightarrow> 'w \<Rightarrow> (int \<times> error option) \<times> 'w) \<Rightarrow> byte list \<Rightarrow> nat \<Rightarrow> 'w \<Rightarrow>
    (int \<times> error option) \<times> 'w" where
  "io_CopyN wr src n st =
     (let sz = (if 32768 > n then (if n < 1 then 1 else n) else 32768);
          res = copyBuffer wr sz (take n src) st 0;
          written = fst (fst res);
          err = snd (fst res)
      in if written = int n then ((int n, None), snd res)
         else if written < int n \<and> err = None then ((written, Some EOF), snd res)
         else ((written, err), snd res))"

text \<open>\<open>io.NewSectionReader(src, off, n)\<close>: the reader delivers the bytes of the source
  in \<open>[off, off + n)\<close>, as far as the file has them.\<close>

definition NewSectionReader :: "osfile \<Rightarrow> nat \<Rightarrow> nat \<Rightarrow> byte list" where
  "NewSectionReader src ofs n = take n (drop ofs (bytes src))"

section \<open>api.go: the copy orchestrator\<close>

subsection \<open>Paths\<close>

text \<open>
  The path-based operations work on a world of named files. \<open>os.Open\<close> gives the file
  behind a name, \<open>ioutil.TempFile\<close> creates an empty file of mode 0600 under a name
  that was free, \<open>os.Rename\<close> moves a file over another name, \<open>os.Remove\<close> deletes
  a name. \<open>reflinkFile\<close> drops the results of \<open>os.Remove\<close> and of both \<open>Close\<close>
  calls; removing the temporary file it has just created is taken to succeed.
\<close>

type_synonym world = "string \<rightharpoonup> osfile"

definition os_Open :: "host \<Rightarrow> world \<Rightarrow> string \<Rightarrow> error + osfile" where
  "os_Open h w name =
     (case open_err h of
        Some e \<Rightarrow> Inl (PathError ''open'' (Errno e))
      | None \<Rightarrow>
          (case w name of
             None \<Rightarrow> Inl (PathError ''open'' (Errno ENOENT))
           | Some f \<Rightarrow> Inr f))"

definition TempFile :: "host \<Rightarrow> world \<Rightarrow> string \<Rightarrow> error + (string \<times> osfile \<times> world)" where
  "TempFile h w dir =
     (case temp_create h dir of
        Inl e \<Rightarrow> Inl (PathError ''open'' (Errno e))
      | Inr nm \<Rightarrow>
          if w nm \<noteq> None then Inl (PathError ''open'' (Errno EEXIST))
          else let t = \<lparr>bytes = [], perm = 384\<rparr> in Inr (nm, t, w(nm \<mapsto> t)))"

definition os_Rename :: "host \<Rightarrow> world \<Rightarrow> string \<Rightarrow> string \<Rightarrow> error option \<times> world" where
  "os_Rename h w oldpath newpath =
     (case rename_err h of
        Some e \<Rightarrow> (Some (PathError ''rename'' (Errno e)), w)
      | None \<Rightarrow>
          (case w oldpath of
             None \<Rightarrow> (Some (PathError ''rename'' (Errno ENOENT)), w)
           | Some f \<Rightarrow> (None, (w(oldpath := None))(newpath \<mapsto> f))))"

definition os_Remove :: "world \<Rightarrow> string \<Rightarrow> world" where
  "os_Remove w name = w(name := None)"

subsection \<open>Always, Auto and reflinkFile\<close>

text \<open>
  \<open>reflinkFile\<close> opens the source, creates the temporary file, and runs the stages on
  it: the clone; with \<open>fallback\<close>, after a failure, \<open>copyFileRange\<close> over the length
  \<open>Stat\<close> reports (its byte count is dropped); with \<open>fallback\<close>, after a failure,
  \<open>io.Copy\<close> from the source's file position, which is still 0. The temporary file is
  then closed; \<open>t\<close> is its content, stored back under its name. After an error the
  temporary file is removed. Otherwise \<open>Chmod\<close> is called on the closed handle, its
  result dropped, and the temporary file is renamed over \<open>dst\<close>; if that fails it is
  removed.
\<close>

definition reflinkFile :: "host \<Rightarrow> world \<Rightarrow> string \<Rightarrow> string \<Rightarrow> bool \<Rightarrow> error option \<times> world" where
  "reflinkFile h w src dst fallback =
     (case os_Open h w src of
        Inl err \<Rightarrow> (Some err, w)
      | Inr s \<Rightarrow>
          (case TempFile h w (path_dir h dst) of
             Inl err \<Rightarrow> (Some err, w)
           | Inr (tmp, t0, w1) \<Rightarrow>
               let (err1, t1) = reflinkInternal h t0 s;
                   (err2, t2) =
                     (if err1 \<noteq> None \<and> fallback then
                        (case File_Stat h s of
                           Inl e \<Rightarrow> (Some e, t1)
                         | Inr st \<Rightarrow> (let r = copyFileRange h t1 s 0 0 (Size st) in (snd (fst r), snd r)))
                      else (err1, t1));
                   (err3, t3) =
                     (if err2 \<noteq> None \<and> fallback then
                        (let r = io_Copy (File_Write h) (bytes s) (t2, 0) in (snd (fst r), fst (snd r)))
                      else (err2, t2));
                   closed = True;
                   w2 = w1(tmp \<mapsto> t3)
               in if err3 \<noteq> None then (err3, os_Remove w2 tmp)
                  else
                    let t4 = (case File_Stat h s of
                                Inr st \<Rightarrow> snd (File_Chmod closed (Mode st) t3)
                              | Inl e \<Rightarrow> t3);
                        w3 = w2(tmp \<mapsto> t4)
                    in (case os_Rename h w3 tmp dst of
                          (Some err, w4) \<Rightarrow> (Some err, os_Remove w4 tmp)
                        | (None, w4) \<Rightarrow> (None, w4))))"

definition Always :: "host \<Rightarrow> world \<Rightarrow> string \<Rightarrow> string \<Rightarrow> error option \<times> world" where
  "Always h w src dst = reflinkFile h w src dst False"

definition Auto :: "host \<Rightarrow> world \<Rightarrow> string \<Rightarrow> string \<Rightarrow> error option \<times> world" where
  "Auto h w src dst = reflinkFile h w src dst True"

subsection \<open>Reflink and Partial\<close>

text \<open>
  The handle-based operations change the destination in place; the result is the error
  and the destination file afterwards. The two handles are different files.
  \<open>Reflink\<close> drops the result of \<open>dst.Truncate(0)\<close>, assuming that a failure there
  shows in the copy; on the open destination it is taken to succeed.
\<close>

definition Reflink :: "host \<Rightarrow> osfile \<Rightarrow> osfile \<Rightarrow> bool \<Rightarrow> error option \<times> osfile" where
  "Reflink h dst src fallback =
     (let (err, d1) = reflinkInternal h dst src
      in if err \<noteq> None \<and> fallback then
           (case File_Stat h src of
              Inl e \<Rightarrow> (Some (StatSource e), d1)
            | Inr st \<Rightarrow>
                let r = copyFileRange h d1 src 0 0 (Size st)
                in if snd (fst r) \<noteq> None then
                     let reader = NewSectionReader src 0 (Size st);
                         writer = \<lparr>base = 0, off = 0\<rparr>;
                         d3 = File_Truncate (snd r) 0;
                         c = io_Copy (Write (File_WriteAt h)) reader (writer, d3)
                     in (snd (fst c), snd (snd c))
                   else (None, snd r))
         else (err, d1))"

definition Partial :: "host \<Rightarrow> osfile \<Rightarrow> osfile \<Rightarrow> nat \<Rightarrow> nat \<Rightarrow> nat \<Rightarrow> bool \<Rightarrow> error option \<times> osfile" where
  "Partial h dst src dstOffset srcOffset n fallback =
     (let (err1, d1) = reflinkRangeInternal h dst src dstOffset srcOffset n;
          (err2, d2) =
            (if err1 \<noteq> None \<and> fallback then
               (let r = copyFileRange h d1 src dstOffset srcOffset n in (snd (fst r), snd r))
             else (err1, d1))
      in if err2 \<noteq> None \<and> fallback then
           let reader = NewSectionReader src srcOffset n;
               writer = \<lparr>base = int dstOffset, off = 0\<rparr>;
               c = io_CopyN (Write (File_WriteAt h)) reader n (writer, d2)
           in (snd (fst c), snd (snd c))
         else (err2, d2))"

section \<open>Simulated hosts and auxiliary notions\<close>

text \<open>
  \<open>linux_host\<close> is a Linux host on which every outside call succeeds;
  \<open>other_host\<close> is a host built without the \<open>linux\<close> constraint, where the stubs of
  reflink.go are compiled in; \<open>noreflink_host\<close> is a Linux host whose filesystem
  answers both clone ioctls with \<open>ENOTSUP\<close>.
\<close>

definition linux_host :: host where
  "linux_host =
     \<lparr>linux = True, conn_src = None, conn_dst = None, ctl_dst = None, ctl_src = None,
      ficlone = None, ficlonerange = None, cfr = Inr 2147479552, fsize_limit = None,
      stat_err = None, open_err = None, rename_err = None,
      path_dir = (\<lambda>p. ''dir''), temp_create = (\<lambda>d. Inr (d @ ''/tmp0''))\<rparr>"

definition other_host :: host where
  "other_host = linux_host\<lparr>linux := False\<rparr>"

definition noreflink_host :: host where
  "noreflink_host = linux_host\<lparr>ficlone := Some ENOTSUP, ficlonerange := Some ENOTSUP\<rparr>"

text \<open>The three copy stages of \<open>reflinkFile\<close> on the temporary file, taken out of its
  body: the error after the last stage that ran and the temporary file's content.\<close>

definition copy_stages :: "host \<Rightarrow> osfile \<Rightarrow> osfile \<Rightarrow> bool \<Rightarrow> error option \<times> osfile" where
  "copy_stages h t0 s fallback =
     (let (err1, t1) = reflinkInternal h t0 s;
          (err2, t2) =
            (if err1 \<noteq> None \<and> fallback then
               (case File_Stat h s of
                  Inl e \<Rightarrow> (Some e, t1)
                | Inr st \<Rightarrow> (let r = copyFileRange h t1 s 0 0 (Size st) in (snd (fst r), snd r)))
             else (err1, t1))
      in if err2 \<noteq> None \<and> fallback then
           (let r = io_Copy (File_Write h) (bytes s) (t2, 0) in (snd (fst r), fst (snd r)))
         else (err2, t2))"

text \<open>The accelerated copy, when the host lets it run, copies at least \<open>n\<close> bytes.\<close>

definition cfr_complete :: "host \<Rightarrow> nat \<Rightarrow> bool" where
  "cfr_complete h n = (case cfr h of Inl e \<Rightarrow> True | Inr k \<Rightarrow> n \<le> k)"

text \<open>The error of a positional write of \<open>len\<close> bytes at offset \<open>a\<close>, and what
  \<open>WriteAt\<close> answers for the bytes \<open>p\<close> there.\<close>

definition wr_error :: "host \<Rightarrow> nat \<Rightarrow> nat \<Rightarrow> error option" where
  "wr_error h a len =
     (if writable h a len < len then Some (PathError ''write'' (Errno EFBIG)) else None)"

definition wr_result :: "host \<Rightarrow> nat \<Rightarrow> byte list \<Rightarrow> int \<times> error option" where
  "wr_result h a p =
     (if writable h a (length p) < length p then 0 else int (length p),
      wr_error h a (length p))"

text \<open>A section writer whose next \<open>m\<close> bytes stay inside the \<open>int64\<close> range, and the
  absolute position it writes at.\<close>

definition sw_ok :: "sectionWriter \<times> osfile \<Rightarrow> nat \<Rightarrow> bool" where
  "sw_ok st m = (0 \<le> base (fst st) \<and> 0 \<le> off (fst st) \<and> base (fst st) + off (fst st) + int m < 2 ^ 63)"

definition sw_pos :: "sectionWriter \<times> osfile \<Rightarrow> nat" where
  "sw_pos st = nat (base (fst st) + off (fst st))"

text \<open>Concrete files and worlds used to run the operations.\<close>

definition src_file :: osfile where
  "src_file = \<lparr>bytes = [1, 2, 3, 4], perm = 420\<rparr>"

definition old_file :: osfile where
  "old_file = \<lparr>bytes = [9, 9, 9, 9, 9, 9], perm = 493\<rparr>"

definition world0 :: world where
  "world0 = [''src'' \<mapsto> src_file]"

definition world1 :: world where
  "world1 = [''src'' \<mapsto> src_file, ''dst'' \<mapsto> old_file]"

section \<open>Positional writes and the copy loop\<close>

lemma int64_id: "- (2 ^ 63) \<le> x \<Longrightarrow> x < 2 ^ 63 \<Longrightarrow> int64 x = x"
  unfolding int64_def by simp

lemma length_write_at:
  "length (write_at bs a p) = (if p = [] then length bs else max (length bs) (a + length p))"
  by (auto simp: write_at_def)

lemma nth_write_at_outside:
  "i < length bs \<Longrightarrow> i < a \<or> a + length p \<le> i \<Longrightarrow> write_at bs a p ! i = bs ! i"
  by (auto simp: write_at_def nth_append)

lemma take_drop_write_at:
  "take (length p) (drop a (write_at bs a p)) = p"
  by (auto simp: write_at_def)

lemma write_at_append:
  "p \<noteq> [] \<Longrightarrow> write_at (write_at bs a p) (a + length p) q = write_at bs a (p @ q)"
  by (auto simp: write_at_def min_def ac_simps)

lemma write_at_Nil [simp]: "write_at bs a [] = bs"
  by (simp add: write_at_def)

lemma writable_le: "writable h a len \<le> len"
  by (simp add: writable_def split: option.splits)

lemma writable_full_split:
  "c \<le> len \<Longrightarrow> writable h a c = c \<Longrightarrow> writable h a len = c + writable h (a + c) (len - c)"
  by (auto simp: writable_def split: option.splits)

lemma writable_short_split:
  "c \<le> len \<Longrightarrow> writable h a c < c \<Longrightarrow> writable h a len = writable h a c"
  by (auto simp: writable_def split: option.splits)

lemma copyBuffer_Nil: "copyBuffer wr sz [] st written = ((written, None), st)"
  by (subst copyBuffer.simps) simp

lemma copyBuffer_positional:
  fixes wr :: "byte list \<Rightarrow> 'w \<Rightarrow> (int \<times> error option) \<times> 'w"
    and posn :: "'w \<Rightarrow> nat" and getf :: "'w \<Rightarrow> osfile" and ok :: "'w \<Rightarrow> nat \<Rightarrow> bool"
  assumes step: "\<And>p st m. p \<noteq> [] \<Longrightarrow> ok st (length p + m) \<Longrightarrow>
        snd (fst (wr p st)) = wr_error h (posn st) (length p)
      \<and> 0 \<le> fst (fst (wr p st))
      \<and> fst (fst (wr p st)) \<le> int (writable h (posn st) (length p))
      \<and> getf (snd (wr p st)) = (getf st)\<lparr>bytes := write_at (bytes (getf st)) (posn st) (take (writable h (posn st) (length p)) p)\<rparr>
      \<and> (writable h (posn st) (length p) = length p \<longrightarrow>
            fst (fst (wr p st)) = int (length p) \<and>
            posn (snd (wr p st)) = posn st + length p \<and> ok (snd (wr p st)) m)"
  shows "ok st (length src) \<Longrightarrow>
         snd (fst (copyBuffer wr sz src st written)) = wr_error h (posn st) (length src)
       \<and> written \<le> fst (fst (copyBuffer wr sz src st written))
       \<and> fst (fst (copyBuffer wr sz src st written)) \<le> written + int (writable h (posn st) (length src))
       \<and> (writable h (posn st) (length src) = length src \<longrightarrow>
            fst (fst (copyBuffer wr sz src st written)) = written + int (length src))
       \<and> getf (snd (copyBuffer wr sz src st written)) =
            (getf st)\<lparr>bytes := write_at (bytes (getf st)) (posn st) (take (writable h (posn st) (length src)) src)\<rparr>"
proof (induction "length src" arbitrary: src st written rule: less_induct)
  case less
  show ?case
  proof (cases "src = []")
    case True
    then show ?thesis
      by (simp add: copyBuffer_Nil wr_error_def writable_def split: option.splits)
  next
    case False
    define buf where "buf = take (max 1 sz) src"
    define c where "c = length buf"
    define rest where "rest = drop (length buf) src"
    define st' where "st' = snd (wr buf st)"
    define nw where "nw = fst (fst (wr buf st))"
    have bufne: "buf \<noteq> []" using False by (auto simp: buf_def)
    have rest_eq: "rest = drop (max 1 sz) src" by (auto simp: rest_def buf_def min_def)
    have src_eq: "src = buf @ rest" by (simp add: buf_def rest_eq)
    have len_src: "length src = c + length rest" using src_eq c_def by (metis length_append)
    have cpos: "0 < c" using bufne by (simp add: c_def)
    have okb: "ok st (length buf + length rest)" using less.prems len_src c_def by simp
    note S = step[OF bufne okb, folded st'_def c_def nw_def]
    define k where "k = writable h (posn st) c"
    have kle: "k \<le> c" by (simp add: k_def writable_le)
    have nw0: "0 \<le> nw" and nwk: "nw \<le> int k" using S by (simp_all add: k_def)
    have nwfull: "k = c \<Longrightarrow> nw = int c" using S by (simp add: k_def)
    have fstw: "fst (wr buf st) = (nw, if k < c then Some (PathError ''write'' (Errno EFBIG)) else None)"
      using S by (simp add: wr_error_def k_def c_def nw_def prod_eq_iff)
    have unfold: "copyBuffer wr sz src st written =
        (if k < c then ((written + nw, Some (PathError ''write'' (Errno EFBIG))), st')
         else copyBuffer wr sz rest st' (written + int c))"
      apply (subst copyBuffer.simps)
      apply (simp only: False if_False Let_def buf_def[symmetric] rest_def[symmetric] st'_def[symmetric] fstw fst_conv snd_conv c_def[symmetric])
      using kle cpos nw0 nwk nwfull apply (auto simp: rest_def c_def)
      done
    show ?thesis
    proof (cases "k = c")
      case True
      have okr: "ok st' (length rest)" using S True by (simp add: k_def)
      have lt: "length rest < length src" using len_src cpos by simp
      note IH = less.hyps[OF lt okr, of "written + int c"]
      have pos': "posn st' = posn st + c" using S True by (simp add: k_def)
      have wsplit: "writable h (posn st) (length src) = c + writable h (posn st + c) (length rest)"
        using writable_full_split[of c "length src" h "posn st"] True len_src by (simp add: k_def)
      have getf': "getf st' = (getf st)\<lparr>bytes := write_at (bytes (getf st)) (posn st) buf\<rparr>"
        using S True by (simp add: k_def c_def)
      have tk: "take (c + j) src = buf @ take j rest" for j
        by (simp add: src_eq c_def)
      have cond: "(writable h (posn st) (length src) < length src) =
                  (writable h (posn st + c) (length rest) < length rest)"
        using wsplit len_src by simp
      have full: "(writable h (posn st) (length src) = length src) =
                  (writable h (posn st + c) (length rest) = length rest)"
        using wsplit len_src by simp
      have kc: "\<not> k < c" using True by simp
      have lsi: "int (length src) = int c + int (length rest)" using len_src by simp
      show ?thesis
        unfolding unfold wr_error_def cond full using IH kc
        by (simp add: pos' wsplit getf' tk write_at_append[OF bufne, folded c_def] wr_error_def lsi)
    next
      case False
      then have klt: "k < c" using kle by simp
      have wshort: "writable h (posn st) (length src) = k"
        using writable_short_split[of c "length src" h "posn st"] klt len_src by (simp add: k_def)
      have tk: "take k src = take k buf" using klt by (simp add: src_eq c_def)
      have getf': "getf st' = (getf st)\<lparr>bytes := write_at (bytes (getf st)) (posn st) (take k buf)\<rparr>"
        using S by (simp add: k_def c_def)
      have cond: "writable h (posn st) (length src) < length src"
        using wshort klt len_src by simp
      show ?thesis
        unfolding unfold wr_error_def using klt cond nw0 nwk by (simp add: wshort tk getf')
    qed
  qed
qed

lemma File_Write_step:
  "fst (File_Write h p st) = (int (writable h (snd st) (length p)), wr_error h (snd st) (length p))
      \<and> fst (snd (File_Write h p st)) = (fst st)\<lparr>bytes := write_at (bytes (fst st)) (snd st) (take (writable h (snd st) (length p)) p)\<rparr>
      \<and> snd (snd (File_Write h p st)) = snd st + writable h (snd st) (length p)"
  by (simp add: File_Write_def wr_error_def Let_def)

lemma copyBuffer_File_Write:
  "snd (fst (copyBuffer (File_Write h) sz src (f, a) written)) = wr_error h a (length src)
   \<and> fst (snd (copyBuffer (File_Write h) sz src (f, a) written)) =
      f\<lparr>bytes := write_at (bytes f) a (take (writable h a (length src)) src)\<rparr>"
  using copyBuffer_positional[where wr = "File_Write h" and posn = snd and getf = fst
      and ok = "\<lambda>_ _. True" and h = h and st = "(f, a)" and src = src and sz = sz and written = written]
  by (simp add: File_Write_step)

lemma Write_File_WriteAt:
  assumes "sw_ok (s, f) (length p)"
  shows "Write (File_WriteAt h) p (s, f) =
     (wr_result h (nat (base s + off s)) p,
      (s\<lparr>off := off s + fst (wr_result h (nat (base s + off s)) p)\<rparr>,
       f\<lparr>bytes := write_at (bytes f) (nat (base s + off s))
            (take (writable h (nat (base s + off s)) (length p)) p)\<rparr>))"
proof -
  define k where "k = writable h (nat (base s + off s)) (length p)"
  have kle: "k \<le> length p" by (simp add: k_def writable_le)
  from assms have b: "0 \<le> base s" "0 \<le> off s" "base s + off s + int (length p) < 2 ^ 63"
    by (simp_all add: sw_ok_def)
  have i1: "int64 (base s + off s) = base s + off s"
    using b by (intro int64_id) auto
  have i2: "int64 (off s + int (length p)) = off s + int (length p)"
    using b by (intro int64_id) auto
  have i3: "int64 (off s) = off s"
    using b by (intro int64_id) auto
  have nneg: "\<not> base s + off s < 0" using b by simp
  show ?thesis
    unfolding Write_def File_WriteAt_def wr_result_def wr_error_def
    by (simp add: Let_def i1 nneg k_def[symmetric] i2 i3)
qed

lemma Write_step:
  assumes "sw_ok st (length p + m)"
  shows "snd (fst (Write (File_WriteAt h) p st)) = wr_error h (sw_pos st) (length p)
      \<and> 0 \<le> fst (fst (Write (File_WriteAt h) p st))
      \<and> fst (fst (Write (File_WriteAt h) p st)) \<le> int (writable h (sw_pos st) (length p))
      \<and> snd (snd (Write (File_WriteAt h) p st)) = (snd st)\<lparr>bytes := write_at (bytes (snd st)) (sw_pos st) (take (writable h (sw_pos st) (length p)) p)\<rparr>
      \<and> (writable h (sw_pos st) (length p) = length p \<longrightarrow>
            fst (fst (Write (File_WriteAt h) p st)) = int (length p) \<and>
            sw_pos (snd (Write (File_WriteAt h) p st)) = sw_pos st + length p \<and>
            sw_ok (snd (Write (File_WriteAt h) p st)) m)"
proof -
  obtain s f where st: "st = (s, f)" by (cases st)
  from assms st have b: "0 \<le> base s" "0 \<le> off s" "base s + off s + int (length p) + int m < 2 ^ 63"
    by (simp_all add: sw_ok_def)
  then have ok: "sw_ok (s, f) (length p)" by (simp add: sw_ok_def)
  have kle: "writable h (nat (base s + off s)) (length p) \<le> length p" by (rule writable_le)
  have pos: "nat (base s + (off s + int (length p))) = nat (base s + off s) + length p"
    using b by simp
  show ?thesis
    unfolding st Write_File_WriteAt[OF ok] using b kle
    by (auto simp: wr_result_def sw_pos_def sw_ok_def pos)
qed

lemma copyBuffer_Write:
  assumes "0 \<le> b" "b + int (length src) < 2 ^ 63"
  shows "snd (fst (copyBuffer (Write (File_WriteAt h)) sz src (\<lparr>base = b, off = 0\<rparr>, f) written)) =
      wr_error h (nat b) (length src)
   \<and> written \<le> fst (fst (copyBuffer (Write (File_WriteAt h)) sz src (\<lparr>base = b, off = 0\<rparr>, f) written))
   \<and> fst (fst (copyBuffer (Write (File_WriteAt h)) sz src (\<lparr>base = b, off = 0\<rparr>, f) written))
        \<le> written + int (writable h (nat b) (length src))
   \<and> (writable h (nat b) (length src) = length src \<longrightarrow>
        fst (fst (copyBuffer (Write (File_WriteAt h)) sz src (\<lparr>base = b, off = 0\<rparr>, f) written)) =
          written + int (length src))
   \<and> snd (snd (copyBuffer (Write (File_WriteAt h)) sz src (\<lparr>base = b, off = 0\<rparr>, f) written)) =
      f\<lparr>bytes := write_at (bytes f) (nat b) (take (writable h (nat b) (length src)) src)\<rparr>"
proof -
  have ok: "sw_ok (\<lparr>base = b, off = 0\<rparr>, f) (length src)" using assms by (simp add: sw_ok_def)
  show ?thesis
    using copyBuffer_positional[where wr = "Write (File_WriteAt h)" and posn = sw_pos and getf = snd
      and ok = sw_ok and h = h and st = "(\<lparr>base = b, off = 0\<rparr>, f)" and src = src and sz = sz
      and written = written, OF _ ok]
    using Write_step by (simp add: sw_pos_def)
qed

section \<open>Running the model\<close>

lemmas eval_defs = Always_def Auto_def reflinkFile_def os_Open_def TempFile_def os_Rename_def
  os_Remove_def reflinkInternal_def reflinkInternal_linux_def reflinkInternal_other_def
  reflinkRangeInternal_def reflinkRangeInternal_linux_def reflinkRangeInternal_other_def
  copyFileRange_def copyFileRange_linux_def copyFileRange_other_def
  IoctlFileClone_def IoctlFileCloneRange_def CopyFileRange_def clone_range_def
  File_Stat_def File_Chmod_def File_Write_def File_WriteAt_def File_Truncate_def
  writable_def write_at_def io_Copy_def io_CopyN_def copyBuffer.simps NewSectionReader_def
  Write_def Seek_def SeekStart_def SeekCurrent_def SeekEnd_def
  linux_host_def other_host_def noreflink_host_def
  src_file_def old_file_def world0_def world1_def Let_def
  Reflink_def Partial_def int64_def ENOTSUP_def EFBIG_def EXDEV_def

section \<open>The stages\<close>

lemma reflinkInternal_cases:
  "reflinkInternal h d s = (None, d\<lparr>bytes := write_at (bytes d) 0 (bytes s)\<rparr>) \<or>
   (\<exists>e. reflinkInternal h d s = (Some e, d) \<and> (e = ErrReflinkUnsupported \<or> e = ErrReflinkFailed \<or> (\<exists>n. e = Errno n)))"
  by (auto simp: reflinkInternal_def reflinkInternal_linux_def reflinkInternal_other_def
      IoctlFileClone_def clone_range_def split: option.splits)

lemma reflinkRangeInternal_cases:
  "reflinkRangeInternal h d s a b n = (None, clone_range d s a b n) \<or>
   (\<exists>e. reflinkRangeInternal h d s a b n = (Some e, d))"
  by (auto simp: reflinkRangeInternal_def reflinkRangeInternal_linux_def
      reflinkRangeInternal_other_def IoctlFileCloneRange_def split: option.splits)

lemma copyFileRange_cases:
  "(\<exists>k. cfr h = Inr k \<and> copyFileRange h d s a b n =
        ((int (length (take (min k n) (drop b (bytes s)))), None),
         d\<lparr>bytes := write_at (bytes d) a (take (min k n) (drop b (bytes s)))\<rparr>)) \<or>
   (\<exists>c e. copyFileRange h d s a b n = ((c, Some e), d) \<and> (e = ErrReflinkUnsupported \<or> (\<exists>n. e = Errno n)))"
  by (auto simp: copyFileRange_def copyFileRange_linux_def copyFileRange_other_def
      CopyFileRange_def Let_def split: option.splits sum.splits)

lemma io_Copy_File_Write_err:
  "snd (fst (io_Copy (File_Write h) src (f, a))) =
     (if writable h a (length src) < length src then Some (PathError ''write'' (Errno EFBIG)) else None)"
  using copyBuffer_File_Write[of h 32768 src f a 0] by (simp add: io_Copy_def wr_error_def)

lemma io_Copy_File_Write_file:
  "fst (snd (io_Copy (File_Write h) src (f, a))) =
      f\<lparr>bytes := write_at (bytes f) a (take (writable h a (length src)) src)\<rparr>"
  using copyBuffer_File_Write[of h 32768 src f a 0] by (simp add: io_Copy_def)

lemma File_Chmod_closed: "File_Chmod True m f = (Some (PathError ''chmod'' ErrClosed), f)"
  by (simp add: File_Chmod_def)

lemma reflinkFile_stages:
  "reflinkFile h w src dst fb =
     (case os_Open h w src of
        Inl err \<Rightarrow> (Some err, w)
      | Inr s \<Rightarrow>
          (case TempFile h w (path_dir h dst) of
             Inl err \<Rightarrow> (Some err, w)
           | Inr (tmp, t0, w1) \<Rightarrow>
               (case copy_stages h t0 s fb of
                  (Some e, t3) \<Rightarrow> (Some e, os_Remove (w1(tmp \<mapsto> t3)) tmp)
                | (None, t3) \<Rightarrow>
                    (case os_Rename h (w1(tmp \<mapsto> t3)) tmp dst of
                       (Some err, w4) \<Rightarrow> (Some err, os_Remove w4 tmp)
                     | (None, w4) \<Rightarrow> (None, w4)))))"
  by (auto simp: reflinkFile_def copy_stages_def Let_def File_Chmod_closed
      split: sum.splits prod.splits option.splits)


lemma copy_stages_nofb: "copy_stages h t0 s False = reflinkInternal h t0 s"
  by (simp add: copy_stages_def split: prod.splits)

lemma copy_stages_fb_error:
  "copy_stages h t0 s True = (Some e, t) \<Longrightarrow> e = PathError ''write'' (Errno EFBIG)"
  by (auto simp: copy_stages_def Let_def io_Copy_File_Write_err split: prod.splits sum.splits if_splits)

lemma write_at_empty: "write_at [] 0 p = p"
  by (simp add: write_at_def)

lemma copy_stages_success:
  assumes "bytes t0 = []" "copy_stages h t0 s fb = (None, t)"
  shows "perm t = perm t0 \<and>
         (bytes t = bytes s \<or>
          (\<exists>k. cfr h = Inr k \<and> k < length (bytes s) \<and> bytes t = take k (bytes s)))"
  using assms reflinkInternal_cases[of h t0 s]
      copyFileRange_cases[of h t0 s 0 0 "length (bytes s)"]
  by (auto simp: copy_stages_def Let_def File_Stat_def io_Copy_File_Write_err
        io_Copy_File_Write_file write_at_empty min_def
        split: prod.splits sum.splits if_splits option.splits)


lemma TempFile_fresh:
  "TempFile h w dir = Inr (tmp, t0, w1) \<Longrightarrow>
     w tmp = None \<and> w1 = w(tmp \<mapsto> t0) \<and> bytes t0 = [] \<and> perm t0 = 384"
  by (auto simp: TempFile_def Let_def split: sum.splits if_splits)

lemma remove_fresh: "w tmp = None \<Longrightarrow> os_Remove (w(tmp \<mapsto> t)) tmp = w"
  by (auto simp: os_Remove_def)

lemma os_Rename_cases:
  "w tmp = None \<Longrightarrow>
     os_Rename h (w(tmp \<mapsto> t)) tmp dst = (None, w(dst \<mapsto> t)) \<and> rename_err h = None \<or>
     (\<exists>e. os_Rename h (w(tmp \<mapsto> t)) tmp dst = (Some (PathError ''rename'' (Errno e)), w(tmp \<mapsto> t)))"
  by (auto simp: os_Rename_def split: option.splits)

lemma os_Rename_ok:
  "w tmp = None \<Longrightarrow> rename_err h = None \<Longrightarrow>
     os_Rename h (w(tmp \<mapsto> t)) tmp dst = (None, w(dst \<mapsto> t))"
  using os_Rename_cases[of w tmp h t dst] by (auto simp: os_Rename_def)

lemma reflinkFile_outcome:
  "(\<exists>e. reflinkFile h w src dst fb = (Some e, w)) \<or>
   (\<exists>s tmp t. os_Open h w src = Inr s \<and> TempFile h w (path_dir h dst) = Inr (tmp, \<lparr>bytes = [], perm = 384\<rparr>, w(tmp \<mapsto> \<lparr>bytes = [], perm = 384\<rparr>))
       \<and> copy_stages h \<lparr>bytes = [], perm = 384\<rparr> s fb = (None, t) \<and> rename_err h = None
       \<and> reflinkFile h w src dst fb = (None, w(dst \<mapsto> t)))"
proof (cases "os_Open h w src")
  case (Inl e)
  then show ?thesis by (simp add: reflinkFile_stages)
next
  case (Inr s)
  show ?thesis
  proof (cases "TempFile h w (path_dir h dst)")
    case (Inl e)
    then show ?thesis using Inr by (simp add: reflinkFile_stages)
  next
    case (Inr r)
    obtain tmp t0 w1 where r: "r = (tmp, t0, w1)" by (cases r) auto
    from TempFile_fresh[OF Inr[unfolded r]]
    have fr: "w tmp = None" and w1: "w1 = w(tmp \<mapsto> t0)" and t0: "t0 = \<lparr>bytes = [], perm = 384\<rparr>"
      by auto
    obtain e t where cs: "copy_stages h t0 s fb = (e, t)" by (cases "copy_stages h t0 s fb")
    show ?thesis
    proof (cases e)
      case (Some err)
      then show ?thesis
        using \<open>os_Open h w src = Inr s\<close> Inr r cs fr w1
        by (simp add: reflinkFile_stages remove_fresh)
    next
      case None
      from os_Rename_cases[of w tmp h t dst, OF fr] show ?thesis
        using \<open>os_Open h w src = Inr s\<close> Inr r cs fr w1 None t0
        by (auto simp: reflinkFile_stages remove_fresh)
    qed
  qed
qed

section \<open>C2: atomicity of the path-based operations\<close>

text \<open>
  Claim C2. Whenever \<open>Always\<close> or \<open>Auto\<close> returns an error, at whatever stage (open,
  creation of the temporary file, clone, fallback copy, rename), the world of named
  files is exactly what it was before the call: the destination path is untouched and
  no temporary file is left. Whenever they succeed, the source was opened, the temporary
  file was created under a name \<open>tmp\<close> that was free, the copy stages left the content
  \<open>t\<close> in it, and the world after the call is the result of the one rename of \<open>tmp\<close>
  over the destination path: the world before the call with the destination path naming
  \<open>t\<close>, and nothing else changed.
\<close>

theorem atomicity:
  "(fst (Always h1 w1 src dst) \<noteq> None \<longrightarrow> snd (Always h1 w1 src dst) = w1) \<and>
   (fst (Always h2 w2 src dst) = None \<longrightarrow>
      (\<exists>s tmp t. os_Open h2 w2 src = Inr s \<and> w2 tmp = None \<and>
         TempFile h2 w2 (path_dir h2 dst) =
           Inr (tmp, \<lparr>bytes = [], perm = 384\<rparr>, w2(tmp \<mapsto> \<lparr>bytes = [], perm = 384\<rparr>)) \<and>
         copy_stages h2 \<lparr>bytes = [], perm = 384\<rparr> s False = (None, t) \<and>
         os_Rename h2 (w2(tmp \<mapsto> t)) tmp dst = (None, w2(dst \<mapsto> t)) \<and>
         snd (Always h2 w2 src dst) = w2(dst \<mapsto> t))) \<and>
   (fst (Auto h3 w3 src dst) \<noteq> None \<longrightarrow> snd (Auto h3 w3 src dst) = w3) \<and>
   (fst (Auto h4 w4 src dst) = None \<longrightarrow>
      (\<exists>s tmp t. os_Open h4 w4 src = Inr s \<and> w4 tmp = None \<and>
         TempFile h4 w4 (path_dir h4 dst) =
           Inr (tmp, \<lparr>bytes = [], perm = 384\<rparr>, w4(tmp \<mapsto> \<lparr>bytes = [], perm = 384\<rparr>)) \<and>
         copy_stages h4 \<lparr>bytes = [], perm = 384\<rparr> s True = (None, t) \<and>
         os_Rename h4 (w4(tmp \<mapsto> t)) tmp dst = (None, w4(dst \<mapsto> t)) \<and>
         snd (Auto h4 w4 src dst) = w4(dst \<mapsto> t)))"
proof -
  have E: "snd (reflinkFile h w src dst fb) = w" if "fst (reflinkFile h w src dst fb) \<noteq> None"
    for h w fb
    using reflinkFile_outcome[of h w src dst fb] that by auto
  have S: "\<exists>s tmp t. os_Open h w src = Inr s \<and> w tmp = None \<and>
         TempFile h w (path_dir h dst) =
           Inr (tmp, \<lparr>bytes = [], perm = 384\<rparr>, w(tmp \<mapsto> \<lparr>bytes = [], perm = 384\<rparr>)) \<and>
         copy_stages h \<lparr>bytes = [], perm = 384\<rparr> s fb = (None, t) \<and>
         os_Rename h (w(tmp \<mapsto> t)) tmp dst = (None, w(dst \<mapsto> t)) \<and>
         snd (reflinkFile h w src dst fb) = w(dst \<mapsto> t)"
    if ok: "fst (reflinkFile h w src dst fb) = None" for h w fb
  proof -
    from reflinkFile_outcome[of h w src dst fb] ok
    obtain s tmp t where o: "os_Open h w src = Inr s"
      and tf: "TempFile h w (path_dir h dst) =
           Inr (tmp, \<lparr>bytes = [], perm = 384\<rparr>, w(tmp \<mapsto> \<lparr>bytes = [], perm = 384\<rparr>))"
      and cs: "copy_stages h \<lparr>bytes = [], perm = 384\<rparr> s fb = (None, t)"
      and rn: "rename_err h = None"
      and r: "reflinkFile h w src dst fb = (None, w(dst \<mapsto> t))"
      by auto
    from TempFile_fresh[OF tf] have fr: "w tmp = None" by simp
    from os_Rename_ok[of w tmp h t dst, OF fr rn] o fr tf cs r show ?thesis by auto
  qed
  show ?thesis
    using E[of h1 w1 False] S[of h2 w2 False] E[of h3 w3 True] S[of h4 w4 True]
    unfolding Always_def Auto_def by blast
qed

theorem atomicity_witness:
  "fst (Always other_host world1 ''src'' ''dst'') \<noteq> None \<and>
   snd (Always other_host world1 ''src'' ''dst'') = world1 \<and>
   fst (Always linux_host world1 ''src'' ''dst'') = None \<and>
   snd (Always linux_host world1 ''src'' ''dst'') =
     world1(''dst'' \<mapsto> \<lparr>bytes = [1, 2, 3, 4], perm = 384\<rparr>) \<and>
   world1 ''dst'' = Some \<lparr>bytes = [9, 9, 9, 9, 9, 9], perm = 493\<rparr> \<and>
   fst (Auto (other_host\<lparr>rename_err := Some 13\<rparr>) world1 ''src'' ''dst'') \<noteq> None \<and>
   snd (Auto (other_host\<lparr>rename_err := Some 13\<rparr>) world1 ''src'' ''dst'') = world1 \<and>
   fst (Auto other_host world0 ''src'' ''dst'') = None \<and>
   snd (Auto other_host world0 ''src'' ''dst'') =
     world0(''dst'' \<mapsto> \<lparr>bytes = [1, 2, 3, 4], perm = 384\<rparr>) \<and>
   world0 ''dst'' = None"
proof -
  let ?emp = "\<lparr>bytes = [], perm = 384\<rparr>"
  let ?new = "\<lparr>bytes = [1, 2, 3, 4], perm = 384\<rparr>"
  have a: "fst (Always other_host world1 ''src'' ''dst'') \<noteq> None"
    by (simp add: eval_defs)
  have b: "fst (Always linux_host world1 ''src'' ''dst'') = None"
    by (simp add: eval_defs)
  have c: "fst (Auto (other_host\<lparr>rename_err := Some 13\<rparr>) world1 ''src'' ''dst'') \<noteq> None"
    by (simp add: eval_defs)
  have d: "fst (Auto other_host world0 ''src'' ''dst'') = None"
    by (simp add: eval_defs)
  have o1: "os_Open linux_host world1 ''src'' = Inr src_file"
    and o0: "os_Open other_host world0 ''src'' = Inr src_file"
    by (simp_all add: eval_defs)
  have s1: "copy_stages linux_host ?emp src_file False = (None, ?new)"
    and s0: "copy_stages other_host ?emp src_file True = (None, ?new)"
    by (simp_all add: copy_stages_def eval_defs)
  have e: "world1 ''dst'' = Some \<lparr>bytes = [9, 9, 9, 9, 9, 9], perm = 493\<rparr>" "world0 ''dst'' = None"
    by (simp_all add: eval_defs)
  note T = atomicity[of other_host world1 "''src''" "''dst''" linux_host world1
      "other_host\<lparr>rename_err := Some 13\<rparr>" world1 other_host world0]
  from T a have r1: "snd (Always other_host world1 ''src'' ''dst'') = world1" by blast
  have r2: "snd (Always linux_host world1 ''src'' ''dst'') = world1(''dst'' \<mapsto> ?new)"
  proof -
    from T b obtain s t where x: "os_Open linux_host world1 ''src'' = Inr s"
      "copy_stages linux_host ?emp s False = (None, t)"
      "snd (Always linux_host world1 ''src'' ''dst'') = world1(''dst'' \<mapsto> t)"
      by blast
    from x(1) o1 have "s = src_file" by simp
    with x(2) s1 have "t = ?new" by simp
    with x(3) show ?thesis by simp
  qed
  from T c have r3: "snd (Auto (other_host\<lparr>rename_err := Some 13\<rparr>) world1 ''src'' ''dst'') = world1"
    by blast
  have r4: "snd (Auto other_host world0 ''src'' ''dst'') = world0(''dst'' \<mapsto> ?new)"
  proof -
    from T d obtain s t where x: "os_Open other_host world0 ''src'' = Inr s"
      "copy_stages other_host ?emp s True = (None, t)"
      "snd (Auto other_host world0 ''src'' ''dst'') = world0(''dst'' \<mapsto> t)"
      by blast
    from x(1) o0 have "s = src_file" by simp
    with x(2) s0 have "t = ?new" by simp
    with x(3) show ?thesis by simp
  qed
  from a b c d e r1 r2 r3 r4 show ?thesis by simp
qed

section \<open>C3: propagation of the unsupported condition\<close>

lemma copy_stages_other_nofb:
  "\<not> linux h \<Longrightarrow> copy_stages h t0 s False = (Some ErrReflinkUnsupported, t0)"
  by (simp add: copy_stages_nofb reflinkInternal_def reflinkInternal_other_def)

lemma copy_stages_other_fb:
  "\<not> linux h \<Longrightarrow> fsize_limit h = None \<Longrightarrow>
     copy_stages h t0 s True = (None, t0\<lparr>bytes := write_at (bytes t0) 0 (bytes s)\<rparr>)"
  by (simp add: copy_stages_def reflinkInternal_def reflinkInternal_other_def
      copyFileRange_def copyFileRange_other_def io_Copy_File_Write_err io_Copy_File_Write_file
      writable_def Let_def split: sum.splits)

lemma reflinkFile_error_kind:
  "fst (reflinkFile h w src dst True) \<noteq> Some ErrReflinkUnsupported"
proof -
  have "fst (reflinkFile h w src dst True) = None \<or>
        (\<exists>opn e. fst (reflinkFile h w src dst True) = Some (PathError opn e))"
    by (auto simp: reflinkFile_stages os_Open_def TempFile_def os_Rename_def Let_def
        dest: copy_stages_fb_error split: sum.splits option.splits prod.splits if_splits)
  then show ?thesis by auto
qed

text \<open>
  Claim C3. On a host built from the stub reflink.go (no clone primitive at all), and
  given that the source opens and the temporary file is created, \<open>Always\<close> returns
  \<open>ErrReflinkUnsupported\<close> and leaves the world as it was; \<open>Auto\<close> on the same
  inputs never returns \<open>ErrReflinkUnsupported\<close>, and when the generic I/O succeeds
  (no write is cut short, the rename succeeds) it returns no error and the destination
  holds the source's bytes, produced by the streamed copy.
\<close>

theorem unsupported_propagation:
  assumes "\<not> linux h" and "open_err h = None" and "w src = Some sf"
    and "temp_create h (path_dir h dst) = Inr tmp" and "w tmp = None"
  shows "Always h w src dst = (Some ErrReflinkUnsupported, w) \<and>
         fst (Auto h w src dst) \<noteq> Some ErrReflinkUnsupported \<and>
         (fsize_limit h = None \<and> rename_err h = None \<longrightarrow>
            fst (Auto h w src dst) = None \<and>
            (\<exists>f. snd (Auto h w src dst) = w(dst \<mapsto> f) \<and> bytes f = bytes sf))"
proof -
  have op: "os_Open h w src = Inr sf" using assms by (simp add: os_Open_def)
  have tf: "TempFile h w (path_dir h dst) =
      Inr (tmp, \<lparr>bytes = [], perm = 384\<rparr>, w(tmp \<mapsto> \<lparr>bytes = [], perm = 384\<rparr>))"
    using assms by (simp add: TempFile_def Let_def)
  have A: "Always h w src dst = (Some ErrReflinkUnsupported, w)"
    using assms(1,5)
    by (simp add: Always_def reflinkFile_stages op tf copy_stages_other_nofb remove_fresh)
  have B: "fst (Auto h w src dst) \<noteq> Some ErrReflinkUnsupported"
    by (simp add: Auto_def reflinkFile_error_kind)
  have C: "fst (Auto h w src dst) = None \<and>
            (\<exists>f. snd (Auto h w src dst) = w(dst \<mapsto> f) \<and> bytes f = bytes sf)"
    if "fsize_limit h = None" "rename_err h = None"
  proof -
    have "Auto h w src dst = (None, w(dst \<mapsto> \<lparr>bytes = bytes sf, perm = 384\<rparr>))"
      using assms(1,5) that
      by (simp add: Auto_def reflinkFile_stages op tf copy_stages_other_fb os_Rename_ok
          write_at_empty)
    moreover have "bytes \<lparr>bytes = bytes sf, perm = 384\<rparr> = bytes sf" by simp
    ultimately show ?thesis by (metis fst_conv snd_conv)
  qed
  show ?thesis using A B C by blast
qed

theorem unsupported_propagation_witness:
  "\<not> linux other_host \<and> open_err other_host = None \<and> world1 ''src'' = Some src_file \<and>
   temp_create other_host (path_dir other_host ''dst'') = Inr ''dir/tmp0'' \<and>
   world1 ''dir/tmp0'' = None \<and> fsize_limit other_host = None \<and> rename_err other_host = None \<and>
   Always other_host world1 ''src'' ''dst'' = (Some ErrReflinkUnsupported, world1) \<and>
   fst (Auto other_host world1 ''src'' ''dst'') = None \<and>
   (\<exists>f. snd (Auto other_host world1 ''src'' ''dst'') = world1(''dst'' \<mapsto> f) \<and> bytes f = bytes src_file)"
proof -
  have h: "\<not> linux other_host" "open_err other_host = None" "world1 ''src'' = Some src_file"
    "temp_create other_host (path_dir other_host ''dst'') = Inr ''dir/tmp0''"
    "world1 ''dir/tmp0'' = None" "fsize_limit other_host = None" "rename_err other_host = None"
    by (simp_all add: other_host_def linux_host_def world1_def)
  from unsupported_propagation[OF h(1-5)] h show ?thesis by simp
qed


section \<open>C8: the contract of sectionWriter\<close>

text \<open>
  Claim C8. For a \<open>sectionWriter\<close> with base offset \<open>b\<close> and relative offset \<open>o\<close>:
  \<open>Write(p)\<close> calls the underlying \<open>WriteAt\<close> at the absolute offset \<open>b + o\<close> and
  advances \<open>o\<close> by the number of bytes that call returns as written. Over a file that
  is: the bytes land at \<open>b + o\<close>, and \<open>o\<close> advances by the length of \<open>p\<close> when the
  write is complete; when the write is cut short, \<open>(*os.File).WriteAt\<close> returns the
  count 0 with the error, and \<open>o\<close> stays where it was. \<open>Seek\<close> from the start sets
  \<open>o\<close> to the given offset, \<open>Seek\<close> from the current position sets it to \<open>o\<close> plus the
  given offset; \<open>Seek\<close> from the end, like any other \<open>whence\<close>, is rejected with an
  error and leaves \<open>o\<close> alone; a \<open>Seek\<close> whose resulting offset is negative is
  rejected with an error and leaves \<open>o\<close> alone. The sums are Go's \<open>int64\<close> sums: the
  equations with \<open>b + o\<close>, \<open>o + n\<close> and \<open>o\<close> plus the offset are stated where these
  values are representable.
\<close>

theorem sectionWriter_contract:
  "(- (2 ^ 63) \<le> base s + off s \<and> base s + off s < 2 ^ 63 \<and>
      w p (base s + off s) f = ((n, err), f') \<and> - (2 ^ 63) \<le> off s + n \<and> off s + n < 2 ^ 63 \<longrightarrow>
      Write w p (s, f) = ((n, err), (s\<lparr>off := off s + n\<rparr>, f'))) \<and>
   (sw_ok (s1, f1) (length p1) \<and> writable h1 (nat (base s1 + off s1)) (length p1) = length p1 \<longrightarrow>
      Write (File_WriteAt h1) p1 (s1, f1) =
        ((int (length p1), None),
         (s1\<lparr>off := off s1 + int (length p1)\<rparr>,
          f1\<lparr>bytes := write_at (bytes f1) (nat (base s1 + off s1)) p1\<rparr>))) \<and>
   (sw_ok (s2, f2) (length p2) \<and> writable h2 (nat (base s2 + off s2)) (length p2) < length p2 \<longrightarrow>
      Write (File_WriteAt h2) p2 (s2, f2) =
        ((0, Some (PathError ''write'' (Errno EFBIG))),
         (s2,
          f2\<lparr>bytes := write_at (bytes f2) (nat (base s2 + off s2))
               (take (writable h2 (nat (base s2 + off s2)) (length p2)) p2)\<rparr>))) \<and>
   (0 \<le> o1 \<longrightarrow> Seek s o1 SeekStart = ((o1, None), s\<lparr>off := o1\<rparr>)) \<and>
   (0 \<le> off s + o2 \<and> off s + o2 < 2 ^ 63 \<longrightarrow>
      Seek s o2 SeekCurrent = ((off s + o2, None), s\<lparr>off := off s + o2\<rparr>)) \<and>
   (whence \<noteq> SeekStart \<and> whence \<noteq> SeekCurrent \<longrightarrow>
      Seek s o3 whence = ((off s, Some ErrSeekWhence), s)) \<and>
   Seek s o3 SeekEnd = ((off s, Some ErrSeekWhence), s) \<and>
   (o4 < 0 \<longrightarrow> Seek s o4 SeekStart = ((off s, Some ErrSeekOffset), s)) \<and>
   (int64 (o5 + off s) < 0 \<longrightarrow> Seek s o5 SeekCurrent = ((off s, Some ErrSeekOffset), s))"
proof -
  have A: "Write w p (s, f) = ((n, err), (s\<lparr>off := off s + n\<rparr>, f'))"
    if "- (2 ^ 63) \<le> base s + off s" "base s + off s < 2 ^ 63"
      "w p (base s + off s) f = ((n, err), f')" "- (2 ^ 63) \<le> off s + n" "off s + n < 2 ^ 63"
    using that by (simp add: Write_def int64_id)
  have B1: "Write (File_WriteAt h1) p1 (s1, f1) =
        ((int (length p1), None),
         (s1\<lparr>off := off s1 + int (length p1)\<rparr>,
          f1\<lparr>bytes := write_at (bytes f1) (nat (base s1 + off s1)) p1\<rparr>))"
    if "sw_ok (s1, f1) (length p1)" "writable h1 (nat (base s1 + off s1)) (length p1) = length p1"
    using Write_File_WriteAt[OF that(1), of h1] that(2)
    by (simp add: wr_result_def wr_error_def)
  have B2: "Write (File_WriteAt h2) p2 (s2, f2) =
        ((0, Some (PathError ''write'' (Errno EFBIG))),
         (s2,
          f2\<lparr>bytes := write_at (bytes f2) (nat (base s2 + off s2))
               (take (writable h2 (nat (base s2 + off s2)) (length p2)) p2)\<rparr>))"
    if "sw_ok (s2, f2) (length p2)" "writable h2 (nat (base s2 + off s2)) (length p2) < length p2"
    using Write_File_WriteAt[OF that(1), of h2] that(2)
    by (simp add: wr_result_def wr_error_def)
  have C: "Seek s o2 SeekCurrent = ((off s + o2, None), s\<lparr>off := off s + o2\<rparr>)"
    if "0 \<le> off s + o2" "off s + o2 < 2 ^ 63"
  proof -
    have "int64 (o2 + off s) = off s + o2" using that by (simp add: int64_id add.commute)
    then show ?thesis using that by (simp add: Seek_def SeekStart_def SeekCurrent_def Let_def)
  qed
  have D: "(0 \<le> o1 \<longrightarrow> Seek s o1 SeekStart = ((o1, None), s\<lparr>off := o1\<rparr>)) \<and>
   (whence \<noteq> SeekStart \<and> whence \<noteq> SeekCurrent \<longrightarrow>
      Seek s o3 whence = ((off s, Some ErrSeekWhence), s)) \<and>
   Seek s o3 SeekEnd = ((off s, Some ErrSeekWhence), s) \<and>
   (o4 < 0 \<longrightarrow> Seek s o4 SeekStart = ((off s, Some ErrSeekOffset), s)) \<and>
   (int64 (o5 + off s) < 0 \<longrightarrow> Seek s o5 SeekCurrent = ((off s, Some ErrSeekOffset), s))"
    by (auto simp: Seek_def SeekStart_def SeekCurrent_def SeekEnd_def Let_def)
  show ?thesis using A B1 B2 C D by blast
qed

theorem sectionWriter_contract_witness:
  "sw_ok (\<lparr>base = 4, off = 1\<rparr>, old_file) (length [7, 8 :: nat]) \<and>
   File_WriteAt linux_host [7, 8] (4 + 1) old_file = ((2, None), \<lparr>bytes = [9, 9, 9, 9, 9, 7, 8], perm = 493\<rparr>) \<and>
   Write (File_WriteAt linux_host) [7, 8] (\<lparr>base = 4, off = 1\<rparr>, old_file) =
     ((2, None), (\<lparr>base = 4, off = 3\<rparr>, \<lparr>bytes = [9, 9, 9, 9, 9, 7, 8], perm = 493\<rparr>)) \<and>
   writable (linux_host\<lparr>fsize_limit := Some 6\<rparr>) (nat (4 + 1)) (length [7, 8 :: nat]) < length [7, 8 :: nat] \<and>
   Write (File_WriteAt (linux_host\<lparr>fsize_limit := Some 6\<rparr>)) [7, 8] (\<lparr>base = 4, off = 1\<rparr>, old_file) =
     ((0, Some (PathError ''write'' (Errno EFBIG))),
      (\<lparr>base = 4, off = 1\<rparr>, \<lparr>bytes = [9, 9, 9, 9, 9, 7], perm = 493\<rparr>)) \<and>
   Seek \<lparr>base = 4, off = 1\<rparr> 10 SeekStart = ((10, None), \<lparr>base = 4, off = 10\<rparr>) \<and>
   Seek \<lparr>base = 4, off = 1\<rparr> 5 SeekCurrent = ((6, None), \<lparr>base = 4, off = 6\<rparr>) \<and>
   Seek \<lparr>base = 4, off = 1\<rparr> 0 SeekEnd = ((1, Some ErrSeekWhence), \<lparr>base = 4, off = 1\<rparr>) \<and>
   Seek \<lparr>base = 4, off = 1\<rparr> 0 7 = ((1, Some ErrSeekWhence), \<lparr>base = 4, off = 1\<rparr>) \<and>
   Seek \<lparr>base = 4, off = 1\<rparr> (- 3) SeekStart = ((1, Some ErrSeekOffset), \<lparr>base = 4, off = 1\<rparr>) \<and>
   Seek \<lparr>base = 4, off = 1\<rparr> (- 3) SeekCurrent = ((1, Some ErrSeekOffset), \<lparr>base = 4, off = 1\<rparr>)"
proof -
  let ?s = "\<lparr>base = 4, off = 1\<rparr>"
  let ?hl = "linux_host\<lparr>fsize_limit := Some 6\<rparr>"
  have w: "File_WriteAt linux_host [7, 8] (4 + 1) old_file =
      ((2, None), \<lparr>bytes = [9, 9, 9, 9, 9, 7, 8], perm = 493\<rparr>)"
    by (simp add: eval_defs)
  have i: "int64 (- 3 + 1) < 0" by (simp add: int64_def)
  have k: "sw_ok (?s, old_file) (length [7, 8 :: nat])"
    by (simp add: sw_ok_def)
  have f: "writable linux_host (nat (4 + 1)) (length [7, 8 :: nat]) = length [7, 8 :: nat]"
    by (simp add: eval_defs)
  have c: "writable ?hl (nat (4 + 1)) (length [7, 8 :: nat]) < length [7, 8 :: nat]"
    by (simp add: eval_defs)
  have c': "writable ?hl (nat (4 + 1)) (length [7, 8 :: nat]) = 1"
    by (simp add: eval_defs)
  from sectionWriter_contract[of ?s "File_WriteAt linux_host" "[7, 8]"
      old_file 2 None "\<lparr>bytes = [9, 9, 9, 9, 9, 7, 8], perm = 493\<rparr>"
      ?s old_file "[7, 8]" linux_host ?s old_file "[7, 8]" ?hl 10 5 7 0 "- 3" "- 3"] w i k f c c'
  show ?thesis by (simp add: SeekStart_def SeekCurrent_def SeekEnd_def old_file_def write_at_def)
qed

section \<open>Reflink and Partial, stage by stage\<close>

lemma io_Copy_Write_err:
  assumes "0 \<le> b" "b + int (length src) < 2 ^ 63"
  shows "snd (fst (io_Copy (Write (File_WriteAt h)) src (\<lparr>base = b, off = 0\<rparr>, f))) =
     (if writable h (nat b) (length src) < length src then Some (PathError ''write'' (Errno EFBIG)) else None)"
  using copyBuffer_Write[OF assms, of h 32768 f 0] by (simp add: io_Copy_def wr_error_def)

lemma io_Copy_Write_file:
  assumes "0 \<le> b" "b + int (length src) < 2 ^ 63"
  shows "snd (snd (io_Copy (Write (File_WriteAt h)) src (\<lparr>base = b, off = 0\<rparr>, f))) =
      f\<lparr>bytes := write_at (bytes f) (nat b) (take (writable h (nat b) (length src)) src)\<rparr>"
  using copyBuffer_Write[OF assms, of h 32768 f 0] by (simp add: io_Copy_def wr_error_def)

lemma reflinkInternal_fail_same:
  "fst (reflinkInternal h d s) \<noteq> None \<Longrightarrow> snd (reflinkInternal h d s) = d"
  using reflinkInternal_cases[of h d s] by auto

lemma reflinkInternal_ok_result:
  "fst (reflinkInternal h d s) = None \<Longrightarrow>
     snd (reflinkInternal h d s) = d\<lparr>bytes := write_at (bytes d) 0 (bytes s)\<rparr>"
  using reflinkInternal_cases[of h d s] by auto

lemma reflinkRangeInternal_fail_same:
  "fst (reflinkRangeInternal h d s a b n) \<noteq> None \<Longrightarrow> snd (reflinkRangeInternal h d s a b n) = d"
  using reflinkRangeInternal_cases[of h d s a b n] by auto

lemma reflinkRangeInternal_ok_result:
  "fst (reflinkRangeInternal h d s a b n) = None \<Longrightarrow>
     snd (reflinkRangeInternal h d s a b n) = clone_range d s a b n"
  using reflinkRangeInternal_cases[of h d s a b n] by auto

lemma copyFileRange_fail_same:
  "snd (fst (copyFileRange h d s a b n)) \<noteq> None \<Longrightarrow> snd (copyFileRange h d s a b n) = d"
  using copyFileRange_cases[of h d s a b n] by auto

lemma copyFileRange_ok_result:
  "snd (fst (copyFileRange h d s a b n)) = None \<Longrightarrow>
     \<exists>k. cfr h = Inr k \<and>
       snd (copyFileRange h d s a b n) =
         d\<lparr>bytes := write_at (bytes d) a (take (min k n) (drop b (bytes s)))\<rparr>"
  using copyFileRange_cases[of h d s a b n] by auto

lemma Reflink_result:
  assumes "int (length (bytes s)) < 2 ^ 63"
  shows "Reflink h d s fb =
    (if fst (reflinkInternal h d s) = None then (None, d\<lparr>bytes := write_at (bytes d) 0 (bytes s)\<rparr>)
     else if \<not> fb then (fst (reflinkInternal h d s), d)
     else (case stat_err h of
             Some e \<Rightarrow> (Some (StatSource (PathError ''stat'' (Errno e))), d)
           | None \<Rightarrow>
               if snd (fst (copyFileRange h d s 0 0 (length (bytes s)))) = None
               then (None, snd (copyFileRange h d s 0 0 (length (bytes s))))
               else (if writable h 0 (length (bytes s)) < length (bytes s)
                     then Some (PathError ''write'' (Errno EFBIG)) else None,
                     d\<lparr>bytes := take (writable h 0 (length (bytes s))) (bytes s)\<rparr>)))"
proof -
  have rng: "(0::int) + int (length (bytes s)) < 2 ^ 63" using assms by simp
  note cp = io_Copy_Write_err[OF order_refl rng] io_Copy_Write_file[OF order_refl rng]
  show ?thesis
  proof (cases "fst (reflinkInternal h d s) = None")
    case True
    then show ?thesis
      using reflinkInternal_ok_result[OF True]
      by (cases "reflinkInternal h d s") (simp add: Reflink_def)
  next
    case False
    note same = reflinkInternal_fail_same[OF False]
    show ?thesis
      using False same copyFileRange_fail_same[of h d s 0 0 "length (bytes s)"]
      by (auto simp: Reflink_def File_Stat_def Let_def NewSectionReader_def File_Truncate_def
          cp write_at_empty split: prod.splits option.splits)
  qed
qed

lemma Partial_result:
  assumes "int dO + int n < 2 ^ 63"
  shows "Partial h d s dO sO n fb =
    (if fst (reflinkRangeInternal h d s dO sO n) = None then (None, clone_range d s dO sO n)
     else if \<not> fb then (fst (reflinkRangeInternal h d s dO sO n), d)
     else if snd (fst (copyFileRange h d s dO sO n)) = None
          then (None, snd (copyFileRange h d s dO sO n))
     else (if writable h dO (length (take n (drop sO (bytes s)))) = n then None
           else if writable h dO (length (take n (drop sO (bytes s)))) = length (take n (drop sO (bytes s)))
                then Some EOF
           else Some (PathError ''write'' (Errno EFBIG)),
           d\<lparr>bytes := write_at (bytes d) dO
               (take (writable h dO (length (take n (drop sO (bytes s))))) (take n (drop sO (bytes s))))\<rparr>))"
proof -
  define X where "X = take n (drop sO (bytes s))"
  have lenX: "length X \<le> n" by (simp add: X_def)
  have rng: "int dO + int (length X) < 2 ^ 63" using assms lenX by simp
  have nn: "(0::int) \<le> int dO" by simp
  define sz where "sz = (if 32768 > n then (if n < 1 then 1 else n) else 32768)"
  note cb = copyBuffer_Write[OF nn rng, of h sz d 0]
  have tk: "take n X = X" by (simp add: X_def)
  define k where "k = writable h dO (length X)"
  have kle: "k \<le> length X" by (simp add: k_def writable_le)
  have fl: "snd (snd (io_CopyN (Write (File_WriteAt h)) X n (\<lparr>base = int dO, off = 0\<rparr>, d))) =
      d\<lparr>bytes := write_at (bytes d) dO (take k X)\<rparr>"
    using cb by (simp add: io_CopyN_def Let_def tk sz_def[symmetric] k_def[symmetric])
  have er: "snd (fst (io_CopyN (Write (File_WriteAt h)) X n (\<lparr>base = int dO, off = 0\<rparr>, d))) =
      (if k = n then None else if k = length X then Some EOF
       else Some (PathError ''write'' (Errno EFBIG)))"
  proof -
    let ?r = "copyBuffer (Write (File_WriteAt h)) sz X (\<lparr>base = int dO, off = 0\<rparr>, d) 0"
    from cb have e: "snd (fst ?r) = (if k < length X then Some (PathError ''write'' (Errno EFBIG)) else None)"
      and lo: "0 \<le> fst (fst ?r)" and hi: "fst (fst ?r) \<le> int k"
      and full: "k = length X \<Longrightarrow> fst (fst ?r) = int (length X)"
      by (simp_all add: wr_error_def k_def)
    show ?thesis
    proof (cases "k = length X")
      case True
      then show ?thesis using full[OF True] e lenX
        by (auto simp: io_CopyN_def Let_def tk sz_def[symmetric])
    next
      case False
      then have "k < length X" using kle by simp
      then have "fst (fst ?r) < int n" "k \<noteq> n" using hi lenX by auto
      then show ?thesis using e \<open>k < length X\<close>
        by (auto simp: io_CopyN_def Let_def tk sz_def[symmetric])
    qed
  qed
  show ?thesis
  proof (cases "fst (reflinkRangeInternal h d s dO sO n) = None")
    case True
    then show ?thesis
      using reflinkRangeInternal_ok_result[OF True]
      by (cases "reflinkRangeInternal h d s dO sO n") (simp add: Partial_def)
  next
    case False
    then obtain e1 where r1: "reflinkRangeInternal h d s dO sO n = (Some e1, d)"
      using reflinkRangeInternal_cases[of h d s dO sO n] by auto
    show ?thesis
    proof (cases "fb")
      case False
      then show ?thesis by (simp add: Partial_def r1)
    next
      case True
      show ?thesis
      proof (cases "snd (fst (copyFileRange h d s dO sO n)) = None")
        case True
        then show ?thesis using \<open>fb\<close> by (simp add: Partial_def r1 Let_def)
      next
        case False
        show ?thesis
          using False \<open>fb\<close> copyFileRange_fail_same[OF False]
          by (auto simp: Partial_def r1 Let_def NewSectionReader_def X_def[symmetric] fl er
              k_def[symmetric])
      qed
    qed
  qed
qed


section \<open>C10: no atomicity in the streamed fallback of Reflink\<close>

text \<open>
  Claim C10. When \<open>Reflink\<close> with \<open>fallback\<close> reaches the streamed copy (the clone
  and the accelerated copy both failed, the source's size was read), it has truncated
  the destination to length 0 before copying. If the streamed copy then fails (here: the
  write is cut at the host's size limit \<open>l\<close>, short of the source's length), \<open>Reflink\<close>
  returns that error and the destination holds just the first \<open>l\<close> bytes of the source:
  its content from before the call is gone and is not restored.
\<close>

theorem Reflink_fallback_not_atomic:
  assumes "fst (reflinkInternal h dst src) \<noteq> None"
    and "stat_err h = None"
    and "snd (fst (copyFileRange h dst src 0 0 (length (bytes src)))) \<noteq> None"
    and "fsize_limit h = Some l" and "l < length (bytes src)"
    and "int (length (bytes src)) < 2 ^ 63"
  shows "Reflink h dst src True =
           (Some (PathError ''write'' (Errno EFBIG)), dst\<lparr>bytes := take l (bytes src)\<rparr>)"
  using assms by (simp add: Reflink_result writable_def)

theorem Reflink_fallback_not_atomic_witness:
  "fst (reflinkInternal (noreflink_host\<lparr>cfr := Inl 38, fsize_limit := Some 2\<rparr>) old_file src_file) \<noteq> None \<and>
   stat_err (noreflink_host\<lparr>cfr := Inl 38, fsize_limit := Some 2\<rparr>) = None \<and>
   snd (fst (copyFileRange (noreflink_host\<lparr>cfr := Inl 38, fsize_limit := Some 2\<rparr>) old_file src_file 0 0
        (length (bytes src_file)))) \<noteq> None \<and>
   fsize_limit (noreflink_host\<lparr>cfr := Inl 38, fsize_limit := Some 2\<rparr>) = Some 2 \<and>
   2 < length (bytes src_file) \<and>
   Reflink (noreflink_host\<lparr>cfr := Inl 38, fsize_limit := Some 2\<rparr>) old_file src_file True =
     (Some (PathError ''write'' (Errno EFBIG)), \<lparr>bytes = [1, 2], perm = 493\<rparr>) \<and>
   bytes old_file = [9, 9, 9, 9, 9, 9]"
proof -
  let ?h = "noreflink_host\<lparr>cfr := Inl 38, fsize_limit := Some 2\<rparr>"
  have a: "fst (reflinkInternal ?h old_file src_file) \<noteq> None"
    "stat_err ?h = None"
    "snd (fst (copyFileRange ?h old_file src_file 0 0 (length (bytes src_file)))) \<noteq> None"
    "fsize_limit ?h = Some 2" "2 < length (bytes src_file)"
    "int (length (bytes src_file)) < 2 ^ 63"
    by (simp_all add: eval_defs)
  from Reflink_fallback_not_atomic[OF a] a show ?thesis
    by (simp add: old_file_def src_file_def)
qed

theorem Reflink_fallback_keeps_nothing:
  "bytes (snd (Reflink (noreflink_host\<lparr>cfr := Inl 38, fsize_limit := Some 2\<rparr>) old_file src_file True))
     \<noteq> bytes old_file"
  by (simp add: eval_defs)

section \<open>C6: Partial with length 0\<close>

lemma io_CopyN_zero: "io_CopyN wr src 0 st = ((0, None), st)"
  by (simp add: io_CopyN_def copyBuffer_Nil Let_def)

lemma copyFileRange_zero:
  "snd (fst (copyFileRange h d s a b 0)) = None \<Longrightarrow> snd (copyFileRange h d s a b 0) = d"
  using copyFileRange_ok_result[of h d s a b 0] by auto

text \<open>
  Claim C6, as the code has it. With length 0: when the ranged clone fails, \<open>Partial\<close>
  with \<open>fallback\<close> returns no error and leaves the destination as it was (the
  accelerated copy copies nothing or fails, the streamed copy of zero bytes writes
  nothing); \<open>Partial\<close> without \<open>fallback\<close> returns the clone's error and leaves the
  destination as it was, and that error is \<open>ErrReflinkUnsupported\<close> on a host built
  from the stub; when the ranged clone succeeds, \<open>Partial\<close> returns no error.
\<close>

theorem Partial_zero_length:
  "(fst (reflinkRangeInternal h1 dst src dstOffset srcOffset 0) \<noteq> None \<longrightarrow>
      Partial h1 dst src dstOffset srcOffset 0 True = (None, dst)) \<and>
   (fst (reflinkRangeInternal h2 dst src dstOffset srcOffset 0) \<noteq> None \<longrightarrow>
      Partial h2 dst src dstOffset srcOffset 0 False =
        (fst (reflinkRangeInternal h2 dst src dstOffset srcOffset 0), dst)) \<and>
   (\<not> linux h3 \<longrightarrow>
      Partial h3 dst src dstOffset srcOffset 0 False = (Some ErrReflinkUnsupported, dst)) \<and>
   (fst (reflinkRangeInternal h4 dst src dstOffset srcOffset 0) = None \<longrightarrow>
      fst (Partial h4 dst src dstOffset srcOffset 0 fb) = None)"
proof -
  have A: "Partial h1 dst src dstOffset srcOffset 0 True = (None, dst)"
    if f: "fst (reflinkRangeInternal h1 dst src dstOffset srcOffset 0) \<noteq> None"
  proof -
    obtain e where r: "reflinkRangeInternal h1 dst src dstOffset srcOffset 0 = (Some e, dst)"
      using f reflinkRangeInternal_cases[of h1 dst src dstOffset srcOffset 0] by auto
    show ?thesis
    proof (cases "snd (fst (copyFileRange h1 dst src dstOffset srcOffset 0)) = None")
      case True
      then show ?thesis
        using copyFileRange_zero[OF True] by (simp add: Partial_def r Let_def)
    next
      case False
      then show ?thesis
        using copyFileRange_fail_same[OF False]
        by (auto simp: Partial_def r Let_def io_CopyN_zero)
    qed
  qed
  have B: "Partial h2 dst src dstOffset srcOffset 0 False =
        (fst (reflinkRangeInternal h2 dst src dstOffset srcOffset 0), dst)"
    if f: "fst (reflinkRangeInternal h2 dst src dstOffset srcOffset 0) \<noteq> None"
    using f reflinkRangeInternal_cases[of h2 dst src dstOffset srcOffset 0]
    by (auto simp: Partial_def)
  have C: "Partial h3 dst src dstOffset srcOffset 0 False = (Some ErrReflinkUnsupported, dst)"
    if "\<not> linux h3"
    using that by (simp add: Partial_def reflinkRangeInternal_def reflinkRangeInternal_other_def)
  have D: "fst (Partial h4 dst src dstOffset srcOffset 0 fb) = None"
    if f: "fst (reflinkRangeInternal h4 dst src dstOffset srcOffset 0) = None"
    using f by (cases "reflinkRangeInternal h4 dst src dstOffset srcOffset 0") (simp add: Partial_def)
  show ?thesis using A B C D by blast
qed

theorem Partial_zero_length_witness:
  "fst (reflinkRangeInternal noreflink_host old_file src_file 2 1 0) \<noteq> None \<and>
   Partial noreflink_host old_file src_file 2 1 0 True = (None, old_file) \<and>
   Partial noreflink_host old_file src_file 2 1 0 False = (Some ErrReflinkFailed, old_file) \<and>
   \<not> linux other_host \<and>
   Partial other_host old_file src_file 2 1 0 False = (Some ErrReflinkUnsupported, old_file) \<and>
   fst (reflinkRangeInternal linux_host old_file src_file 2 1 0) = None \<and>
   fst (Partial linux_host old_file src_file 2 1 0 False) = None"
proof -
  have a: "fst (reflinkRangeInternal noreflink_host old_file src_file 2 1 0) \<noteq> None"
    "fst (reflinkRangeInternal noreflink_host old_file src_file 2 1 0) = Some ErrReflinkFailed"
    "\<not> linux other_host"
    "fst (reflinkRangeInternal linux_host old_file src_file 2 1 0) = None"
    by (simp_all add: eval_defs)
  from Partial_zero_length[of noreflink_host old_file src_file 2 1 noreflink_host other_host
      linux_host False] a
  show ?thesis by simp
qed

text \<open>The claim as stated fails: on the stub host, without \<open>fallback\<close>, a
  zero-length \<open>Partial\<close> returns an error.\<close>

theorem Partial_zero_length_counterexample:
  "Partial other_host old_file src_file 0 0 0 False = (Some ErrReflinkUnsupported, old_file)"
  by (simp add: eval_defs)

section \<open>C7: the frame of Partial\<close>

lemma Partial_shape:
  assumes "int dstOffset + int n < 2 ^ 63"
    and "0 < n \<or> fst (reflinkRangeInternal h dst src dstOffset srcOffset n) \<noteq> None"
  shows "\<exists>Y. length Y \<le> n \<and>
           snd (Partial h dst src dstOffset srcOffset n fb) =
             dst\<lparr>bytes := write_at (bytes dst) dstOffset Y\<rparr>"
proof -
  let ?X = "take n (drop srcOffset (bytes src))"
  have nil: "dst = dst\<lparr>bytes := write_at (bytes dst) dstOffset []\<rparr>" by simp
  consider (clone) "fst (reflinkRangeInternal h dst src dstOffset srcOffset n) = None"
    | (nofb) "fst (reflinkRangeInternal h dst src dstOffset srcOffset n) \<noteq> None" "\<not> fb"
    | (accel) "fst (reflinkRangeInternal h dst src dstOffset srcOffset n) \<noteq> None" "fb"
        "snd (fst (copyFileRange h dst src dstOffset srcOffset n)) = None"
    | (stream) "fst (reflinkRangeInternal h dst src dstOffset srcOffset n) \<noteq> None" "fb"
        "snd (fst (copyFileRange h dst src dstOffset srcOffset n)) \<noteq> None"
    by blast
  then show ?thesis
  proof cases
    case clone
    with assms(2) have "0 < n" by simp
    then have "snd (Partial h dst src dstOffset srcOffset n fb) =
        dst\<lparr>bytes := write_at (bytes dst) dstOffset ?X\<rparr>"
      using clone by (auto simp: Partial_result[OF assms(1)] clone_range_def)
    moreover have "length ?X \<le> n" by simp
    ultimately show ?thesis by blast
  next
    case nofb
    then have "snd (Partial h dst src dstOffset srcOffset n fb) =
        dst\<lparr>bytes := write_at (bytes dst) dstOffset []\<rparr>"
      by (auto simp: Partial_result[OF assms(1)])
    then show ?thesis by (metis le0 list.size(3))
  next
    case accel
    from copyFileRange_ok_result[OF accel(3)] obtain k where
      k: "snd (copyFileRange h dst src dstOffset srcOffset n) =
         dst\<lparr>bytes := write_at (bytes dst) dstOffset (take (min k n) (drop srcOffset (bytes src)))\<rparr>"
      by blast
    have "snd (Partial h dst src dstOffset srcOffset n fb) =
        dst\<lparr>bytes := write_at (bytes dst) dstOffset (take (min k n) (drop srcOffset (bytes src)))\<rparr>"
      using accel k by (auto simp: Partial_result[OF assms(1)])
    moreover have "length (take (min k n) (drop srcOffset (bytes src))) \<le> n" by simp
    ultimately show ?thesis by blast
  next
    case stream
    let ?k = "writable h dstOffset (length ?X)"
    have "snd (Partial h dst src dstOffset srcOffset n fb) =
        dst\<lparr>bytes := write_at (bytes dst) dstOffset (take ?k ?X)\<rparr>"
      using stream by (auto simp: Partial_result[OF assms(1)])
    moreover have "length (take ?k ?X) \<le> n" by simp
    ultimately show ?thesis by blast
  qed
qed

text \<open>
  Claim C7, as the code has it. For a \<open>Partial\<close> over \<open>[dstOffset, dstOffset + n)\<close>
  (with \<open>n > 0\<close>, or with the ranged clone failing), whatever it returns: the
  destination's permission bits are unchanged; every byte the destination had at a
  position outside the range keeps its value; the destination is never truncated; and it
  grows only as far as the end of the range, which happens when the range extends past its
  old end.
\<close>

theorem Partial_frame:
  assumes "int dstOffset + int n < 2 ^ 63"
    and "0 < n \<or> fst (reflinkRangeInternal h dst src dstOffset srcOffset n) \<noteq> None"
  shows "perm (snd (Partial h dst src dstOffset srcOffset n fb)) = perm dst \<and>
         length (bytes dst) \<le> length (bytes (snd (Partial h dst src dstOffset srcOffset n fb))) \<and>
         length (bytes (snd (Partial h dst src dstOffset srcOffset n fb)))
           \<le> max (length (bytes dst)) (dstOffset + n) \<and>
         (\<forall>i. i < length (bytes dst) \<and> (i < dstOffset \<or> dstOffset + n \<le> i) \<longrightarrow>
            bytes (snd (Partial h dst src dstOffset srcOffset n fb)) ! i = bytes dst ! i)"
proof -
  from Partial_shape[OF assms, of fb] obtain Y where
    Y: "length Y \<le> n"
    "snd (Partial h dst src dstOffset srcOffset n fb) = dst\<lparr>bytes := write_at (bytes dst) dstOffset Y\<rparr>"
    by blast
  have "bytes (snd (Partial h dst src dstOffset srcOffset n fb)) ! i = bytes dst ! i"
    if "i < length (bytes dst)" "i < dstOffset \<or> dstOffset + n \<le> i" for i
  proof -
    have "i < dstOffset \<or> dstOffset + length Y \<le> i" using that(2) Y(1) by auto
    then show ?thesis using that(1) by (simp add: Y(2) nth_write_at_outside)
  qed
  then show ?thesis
    using Y(1) by (auto simp: Y(2) length_write_at)
qed

theorem Partial_frame_witness:
  "int 4 + int 4 < 2 ^ 63 \<and> (0::nat) < 4 \<and>
   Partial other_host old_file src_file 4 0 4 True = (None, \<lparr>bytes = [9, 9, 9, 9, 1, 2, 3, 4], perm = 493\<rparr>) \<and>
   perm (snd (Partial other_host old_file src_file 4 0 4 True)) = perm old_file \<and>
   length (bytes old_file) \<le> length (bytes (snd (Partial other_host old_file src_file 4 0 4 True))) \<and>
   bytes (snd (Partial other_host old_file src_file 4 0 4 True)) ! 3 = bytes old_file ! 3"
proof -
  have a: "int 4 + int 4 < 2 ^ 63" by simp
  have b: "0 < (4::nat) \<or> fst (reflinkRangeInternal other_host old_file src_file 4 0 4) \<noteq> None"
    by simp
  have c: "Partial other_host old_file src_file 4 0 4 True =
      (None, \<lparr>bytes = [9, 9, 9, 9, 1, 2, 3, 4], perm = 493\<rparr>)"
    by (simp add: eval_defs)
  have d: "(3::nat) < length (bytes old_file)" by (simp add: old_file_def)
  note F = Partial_frame[OF a b, of True]
  from F d have e: "bytes (snd (Partial other_host old_file src_file 4 0 4 True)) ! 3 = bytes old_file ! 3"
    by simp
  from F c e show ?thesis by simp
qed

text \<open>The claim as stated fails where it says that \<open>Partial\<close> never resizes the
  destination: a successful \<open>Partial\<close> whose range ends past the end of the file makes
  it longer.\<close>

theorem Partial_grows_counterexample:
  "Partial other_host old_file src_file 4 0 4 True =
     (None, \<lparr>bytes = [9, 9, 9, 9, 1, 2, 3, 4], perm = 493\<rparr>) \<and>
   length (bytes old_file) = 6 \<and>
   length (bytes (snd (Partial other_host old_file src_file 4 0 4 True))) = 8"
  by (simp add: eval_defs)


section \<open>C1: content equality\<close>

lemma write_at_0:
  "write_at bs 0 p = p @ drop (length p) bs"
  by (simp add: write_at_def)

lemma reflinkFile_content:
  assumes "w src = Some sf" and "fb \<longrightarrow> cfr_complete h (length (bytes sf))"
    and "reflinkFile h w src dst fb = (None, w')"
  shows "\<exists>f. w' dst = Some f \<and> bytes f = bytes sf"
proof -
  from reflinkFile_outcome[of h w src dst fb] assms(3)
  obtain s t where o: "os_Open h w src = Inr s"
    and cs: "copy_stages h \<lparr>bytes = [], perm = 384\<rparr> s fb = (None, t)"
    and r: "reflinkFile h w src dst fb = (None, w(dst \<mapsto> t))"
    by auto
  have s: "s = sf" using o assms(1) by (auto simp: os_Open_def split: option.splits)
  have "bytes t = bytes sf"
  proof (cases fb)
    case True
    with assms(2) have c: "cfr_complete h (length (bytes sf))" by simp
    from copy_stages_success[OF _ cs] c show ?thesis
      by (auto simp: s cfr_complete_def)
  next
    case False
    with cs have "reflinkInternal h \<lparr>bytes = [], perm = 384\<rparr> s = (None, t)"
      by (simp add: copy_stages_nofb)
    then show ?thesis
      using reflinkInternal_ok_result[of h "\<lparr>bytes = [], perm = 384\<rparr>" s]
      by (simp add: s write_at_empty)
  qed
  then show ?thesis using r assms(3) by auto
qed

lemma Reflink_content:
  assumes "int (length (bytes s)) < 2 ^ 63" and "cfr_complete h (length (bytes s))"
    and "Reflink h d s fb = (None, d')"
  shows "bytes d' = bytes s @
           (if fst (reflinkInternal h d s) \<noteq> None \<and>
               snd (fst (copyFileRange h d s 0 0 (length (bytes s)))) \<noteq> None
            then [] else drop (length (bytes s)) (bytes d))"
proof (cases "fst (reflinkInternal h d s) = None")
  case True
  then show ?thesis using assms(3) by (auto simp: Reflink_result[OF assms(1)] write_at_0)
next
  case False
  note cl = False
  show ?thesis
  proof (cases "snd (fst (copyFileRange h d s 0 0 (length (bytes s)))) = None")
    case True
    from copyFileRange_ok_result[OF True] obtain k where k: "cfr h = Inr k"
      "snd (copyFileRange h d s 0 0 (length (bytes s))) =
         d\<lparr>bytes := write_at (bytes d) 0 (take (min k (length (bytes s))) (drop 0 (bytes s)))\<rparr>"
      by blast
    have "length (bytes s) \<le> k" using assms(2) k(1) by (simp add: cfr_complete_def)
    then have "take (min k (length (bytes s))) (drop 0 (bytes s)) = bytes s" by simp
    with k(2) have kk: "snd (copyFileRange h d s 0 0 (length (bytes s))) =
         d\<lparr>bytes := write_at (bytes d) 0 (bytes s)\<rparr>" by simp
    have "d' = snd (copyFileRange h d s 0 0 (length (bytes s)))"
      using assms(3) cl True
      by (auto simp: Reflink_result[OF assms(1)] split: if_splits option.splits)
    then have "bytes d' = bytes s @ drop (length (bytes s)) (bytes d)"
      by (simp add: kk write_at_0)
    then show ?thesis using True by simp
  next
    case False
    then show ?thesis
      using assms(3) cl
      by (auto simp: Reflink_result[OF assms(1)] split: if_splits option.splits)
  qed
qed

lemma take_drop_write_at_full:
  "length p = n \<Longrightarrow> take n (drop a (write_at bs a p)) = p"
  using take_drop_write_at[of p a bs] by simp

lemma Partial_content:
  assumes "int dO + int n < 2 ^ 63" and "sO + n \<le> length (bytes s)" and "cfr_complete h n"
    and "Partial h d s dO sO n fb = (None, d')"
  shows "take n (drop dO (bytes d')) = take n (drop sO (bytes s))"
proof -
  let ?X = "take n (drop sO (bytes s))"
  have lenX: "length ?X = n" using assms(2) by simp
  consider (clone) "fst (reflinkRangeInternal h d s dO sO n) = None"
    | (nofb) "fst (reflinkRangeInternal h d s dO sO n) \<noteq> None" "\<not> fb"
    | (accel) "fst (reflinkRangeInternal h d s dO sO n) \<noteq> None" "fb"
        "snd (fst (copyFileRange h d s dO sO n)) = None"
    | (stream) "fst (reflinkRangeInternal h d s dO sO n) \<noteq> None" "fb"
        "snd (fst (copyFileRange h d s dO sO n)) \<noteq> None"
    by blast
  then show ?thesis
  proof cases
    case clone
    show ?thesis
    proof (cases "n = 0")
      case True
      then show ?thesis by simp
    next
      case False
      then have "d' = d\<lparr>bytes := write_at (bytes d) dO ?X\<rparr>"
        using clone assms(4) by (auto simp: Partial_result[OF assms(1)] clone_range_def)
      then show ?thesis using lenX by (simp add: take_drop_write_at_full)
    qed
  next
    case nofb
    then show ?thesis using assms(4) by (auto simp: Partial_result[OF assms(1)])
  next
    case accel
    from copyFileRange_ok_result[OF accel(3)] obtain k where k: "cfr h = Inr k"
      "snd (copyFileRange h d s dO sO n) =
         d\<lparr>bytes := write_at (bytes d) dO (take (min k n) (drop sO (bytes s)))\<rparr>"
      by blast
    have "n \<le> k" using assms(3) k(1) by (simp add: cfr_complete_def)
    then have "min k n = n" by simp
    then have "d' = d\<lparr>bytes := write_at (bytes d) dO ?X\<rparr>"
      using accel assms(4) k(2) by (auto simp: Partial_result[OF assms(1)])
    then show ?thesis using lenX by (simp add: take_drop_write_at_full)
  next
    case stream
    let ?k = "writable h dO (length ?X)"
    have res: "Partial h d s dO sO n fb =
        (if ?k = n then None else if ?k = length ?X then Some EOF
         else Some (PathError ''write'' (Errno EFBIG)),
         d\<lparr>bytes := write_at (bytes d) dO (take ?k ?X)\<rparr>)"
      using stream by (auto simp: Partial_result[OF assms(1)])
    from res assms(4) have kn: "?k = n" by (auto split: if_splits)
    from res assms(4) have "d' = d\<lparr>bytes := write_at (bytes d) dO (take ?k ?X)\<rparr>" by simp
    then have "d' = d\<lparr>bytes := write_at (bytes d) dO ?X\<rparr>" using kn lenX by simp
    then show ?thesis using lenX by (simp add: take_drop_write_at_full)
  qed
qed

text \<open>
  What the code does give, for an accelerated copy that, where it runs, copies every
  byte it was asked for (\<open>cfr_complete\<close>). After a successful \<open>Always\<close> or \<open>Auto\<close>
  the destination path names a file whose content is the source's. After a successful
  \<open>Reflink\<close> the destination's content starts with the source's content, and it is
  exactly the source's content when the streamed copy produced it or when the destination
  was not longer than the source before the call. After a successful \<open>Partial\<close> over a
  range the source has, the destination's bytes in \<open>[dstOffset, dstOffset + n)\<close> are the
  source's bytes in \<open>[srcOffset, srcOffset + n)\<close>.
\<close>

lemma content_equality_complete_copy:
  "(w src = Some sf \<and> Always h1 w src dst = (None, w1) \<longrightarrow>
      (\<exists>f. w1 dst = Some f \<and> bytes f = bytes sf)) \<and>
   (w src = Some sf \<and> cfr_complete h2 (length (bytes sf)) \<and> Auto h2 w src dst = (None, w2) \<longrightarrow>
      (\<exists>f. w2 dst = Some f \<and> bytes f = bytes sf)) \<and>
   (int (length (bytes s3)) < 2 ^ 63 \<and> cfr_complete h3 (length (bytes s3)) \<and>
    Reflink h3 d3 s3 fb3 = (None, d3') \<longrightarrow>
      take (length (bytes s3)) (bytes d3') = bytes s3 \<and>
      (length (bytes d3) \<le> length (bytes s3) \<or>
       fst (reflinkInternal h3 d3 s3) \<noteq> None \<and>
       snd (fst (copyFileRange h3 d3 s3 0 0 (length (bytes s3)))) \<noteq> None \<longrightarrow>
         bytes d3' = bytes s3)) \<and>
   (int dstOffset + int n < 2 ^ 63 \<and> srcOffset + n \<le> length (bytes s4) \<and> cfr_complete h4 n \<and>
    Partial h4 d4 s4 dstOffset srcOffset n fb4 = (None, d4') \<longrightarrow>
      take n (drop dstOffset (bytes d4')) = take n (drop srcOffset (bytes s4)))"
proof -
  have R: "take (length (bytes s3)) (bytes d3') = bytes s3 \<and>
      (length (bytes d3) \<le> length (bytes s3) \<or>
       fst (reflinkInternal h3 d3 s3) \<noteq> None \<and>
       snd (fst (copyFileRange h3 d3 s3 0 0 (length (bytes s3)))) \<noteq> None \<longrightarrow>
         bytes d3' = bytes s3)"
    if "int (length (bytes s3)) < 2 ^ 63" "cfr_complete h3 (length (bytes s3))"
      "Reflink h3 d3 s3 fb3 = (None, d3')"
    using Reflink_content[OF that] by auto
  show ?thesis
    using reflinkFile_content[of w src sf False h1 dst w1]
      reflinkFile_content[of w src sf True h2 dst w2] R
      Partial_content[of dstOffset n srcOffset s4 h4 d4 fb4 d4']
    unfolding Always_def Auto_def by blast
qed


text \<open>
  Claim C1 on the code. The destination has six bytes, the source the four bytes
  \<open>[1, 2, 3, 4]\<close>, and the filesystem refuses the clone. Where \<open>copy_file_range\<close>
  copies all four bytes, \<open>Reflink\<close> with \<open>fallback\<close> returns no error and the
  destination is \<open>[1, 2, 3, 4, 9, 9]\<close>: its last two bytes are still there. On the same
  files, where \<open>copy_file_range\<close> fails, the streamed copy truncates first and the
  destination is \<open>[1, 2, 3, 4]\<close>. Where \<open>copy_file_range\<close> copies two bytes only,
  \<open>Reflink\<close> drops the count, returns no error and the destination is
  \<open>[1, 2, 9, 9, 9, 9]\<close>.
\<close>

theorem Reflink_accelerated_copy_keeps_tail:
  "Reflink noreflink_host old_file src_file True =
     (None, \<lparr>bytes = [1, 2, 3, 4, 9, 9], perm = 493\<rparr>) \<and>
   Reflink (noreflink_host\<lparr>cfr := Inl 38\<rparr>) old_file src_file True =
     (None, \<lparr>bytes = [1, 2, 3, 4], perm = 493\<rparr>) \<and>
   Reflink (noreflink_host\<lparr>cfr := Inr 2\<rparr>) old_file src_file True =
     (None, \<lparr>bytes = [1, 2, 9, 9, 9, 9], perm = 493\<rparr>) \<and>
   bytes src_file = [1, 2, 3, 4] \<and> bytes old_file = [9, 9, 9, 9, 9, 9]"
  by (simp add: eval_defs)

section \<open>C4: a short accelerated copy\<close>

text \<open>Whatever number of bytes the accelerated copy reports, \<open>Partial\<close> returns its
  result as the final one.\<close>

lemma Partial_accepts_any_count:
  assumes "int dstOffset + int n < 2 ^ 63"
    and "fst (reflinkRangeInternal h dst src dstOffset srcOffset n) \<noteq> None"
    and "snd (fst (copyFileRange h dst src dstOffset srcOffset n)) = None"
  shows "Partial h dst src dstOffset srcOffset n True =
           (None, snd (copyFileRange h dst src dstOffset srcOffset n))"
  using assms(2,3) by (auto simp: Partial_result[OF assms(1)])

text \<open>
  Claim C4 on the code. The host's filesystem refuses the clone and \<open>copy_file_range\<close>
  copies 2 of the 4 bytes asked for, without error. \<open>Partial\<close> and \<open>Auto\<close> return no
  error and never run the streamed copy: the destination holds the first two bytes of
  the source only.
\<close>

theorem short_accelerated_copy_accepted:
  "Partial (noreflink_host\<lparr>cfr := Inr 2\<rparr>) old_file src_file 0 0 4 True =
     (None, \<lparr>bytes = [1, 2, 9, 9, 9, 9], perm = 493\<rparr>) \<and>
   fst (Auto (noreflink_host\<lparr>cfr := Inr 2\<rparr>) world0 ''src'' ''dst'') = None \<and>
   snd (Auto (noreflink_host\<lparr>cfr := Inr 2\<rparr>) world0 ''src'' ''dst'') ''dst'' =
     Some \<lparr>bytes = [1, 2], perm = 384\<rparr> \<and>
   bytes src_file = [1, 2, 3, 4]"
  by (simp add: eval_defs)

section \<open>C5: which clone failures become ErrReflinkFailed\<close>

text \<open>
  Claim C5 on the code. The two clone functions of reflink_linux.go return
  \<open>ErrReflinkFailed\<close> exactly when the ioctl was issued and failed with \<open>ENOTSUP\<close>.
  An ioctl that fails with \<open>EXDEV\<close> (source and destination on different
  filesystems) is returned as it is, not as \<open>ErrReflinkFailed\<close>.
\<close>

theorem clone_error_mapping:
  "(fst (reflinkInternal_linux h d s) = Some ErrReflinkFailed) =
     (conn_src h = None \<and> conn_dst h = None \<and> ctl_dst h = None \<and> ctl_src h = None \<and>
      ficlone h = Some ENOTSUP) \<and>
   (fst (reflinkRangeInternal_linux h d s a b n) = Some ErrReflinkFailed) =
     (conn_src h = None \<and> conn_dst h = None \<and> ctl_dst h = None \<and> ctl_src h = None \<and>
      ficlonerange h = Some ENOTSUP) \<and>
   reflinkInternal (linux_host\<lparr>ficlone := Some EXDEV\<rparr>) d s = (Some (Errno EXDEV), d) \<and>
   reflinkRangeInternal (linux_host\<lparr>ficlonerange := Some EXDEV\<rparr>) d s a b n = (Some (Errno EXDEV), d)"
  by (auto simp: reflinkInternal_def reflinkInternal_linux_def reflinkRangeInternal_def
      reflinkRangeInternal_linux_def IoctlFileClone_def IoctlFileCloneRange_def linux_host_def
      EXDEV_def ENOTSUP_def split: option.splits)

section \<open>C9: the file mode\<close>

lemma reflinkFile_mode:
  assumes "reflinkFile h w src dst fb = (None, w')"
  shows "\<exists>f. w' dst = Some f \<and> perm f = 384"
proof -
  from reflinkFile_outcome[of h w src dst fb] assms
  obtain s t where cs: "copy_stages h \<lparr>bytes = [], perm = 384\<rparr> s fb = (None, t)"
    and r: "reflinkFile h w src dst fb = (None, w(dst \<mapsto> t))"
    by auto
  from copy_stages_success[OF _ cs] have "perm t = 384" by simp
  then show ?thesis using r assms by auto
qed

text \<open>
  Claim C9 on the code. The source has mode 0644 (420) and every outside call succeeds;
  \<open>Always\<close> and \<open>Auto\<close> return no error, and the destination has mode 0600 (384), the
  mode \<open>ioutil.TempFile\<close> created the temporary file with: \<open>Chmod\<close> is called after
  \<open>Close\<close> and fails.
\<close>

theorem mode_not_preserved:
  "perm src_file = 420 \<and>
   fst (Always linux_host world0 ''src'' ''dst'') = None \<and>
   snd (Always linux_host world0 ''src'' ''dst'') ''dst'' = Some \<lparr>bytes = [1, 2, 3, 4], perm = 384\<rparr> \<and>
   fst (Auto other_host world0 ''src'' ''dst'') = None \<and>
   snd (Auto other_host world0 ''src'' ''dst'') ''dst'' = Some \<lparr>bytes = [1, 2, 3, 4], perm = 384\<rparr>"
  by (simp add: eval_defs)


end
